theory Spec2Isabelle
  imports Complex_Main
begin

section \<open>The discrete adjoint solver of SU2 (solver_adjoint_discrete.cpp)\<close>

text \<open>
  A shallow embedding of the class \<^verbatim>\<open>CDiscAdjSolver\<close>. The scalar type \<^verbatim>\<open>su2double\<close> is
  read as a real number: infinities and NaN are outside the model, and so is the
  rounding of the values the routines store, with one exception. Where a comparison of
  computed values decides what is stored (the sharp-edge threshold of \<^verbatim>\<open>SetSensitivity\<close>),
  the products are rounded as the double format rounds them, overflow included, in the
  order the source multiplies. Arrays are lists, indexed from 0. The process group is a
  list of processes, one per rank; each process has its own mesh partition and its own
  solver object.
\<close>

type_synonym su2double = real

subsection \<open>Enumerations and constants declared outside the file\<close>

text \<open>
  Modelled from the spec: the constant \<^verbatim>\<open>MASTER_NODE\<close>, declared in
  option_structure.hpp and not in this file, is the one designated rank of the
  communicator; the ranks of a communicator of size \<open>n\<close> are \<open>0, ..., n - 1\<close> and the
  designated rank is rank 0.
\<close>

definition MASTER_NODE :: nat where
  "MASTER_NODE = 0"

text \<open>
  Modelled from the spec: the objective selectors. The enumeration is declared in
  option_structure.hpp; the twelve named constructors are the labels of the switch in
  \<^verbatim>\<open>RegisterObj_Func\<close>, and \<open>OTHER_OBJECTIVE k\<close> stands for every other value \<open>k\<close> of
  the selector.
\<close>

datatype ENUM_OBJECTIVE =
    DRAG_COEFFICIENT
  | LIFT_COEFFICIENT
  | SIDEFORCE_COEFFICIENT
  | EFFICIENCY
  | MOMENT_X_COEFFICIENT
  | MOMENT_Y_COEFFICIENT
  | MOMENT_Z_COEFFICIENT
  | EQUIVALENT_AREA
  | AVG_TOTAL_PRESSURE
  | AVG_OUTLET_PRESSURE
  | MASS_FLOW_RATE
  | THRUST_NOZZLE
  | OTHER_OBJECTIVE nat

text \<open>
  The other enumerations, likewise: only the values the file names are constructors of
  their own; \<open>OTHER_...\<close> stands for any other value.
\<close>

datatype ENUM_UNSTEADY = DT_STEPPING_1ST | DT_STEPPING_2ND | OTHER_UNSTEADY nat

datatype ENUM_REGIME = COMPRESSIBLE | OTHER_REGIME nat

datatype RUNTIME_TYPE = RUNTIME_FLOW_SYS | RUNTIME_TURB_SYS | OTHER_SYS nat

datatype BC_TYPE = EULER_WALL | HEAT_FLUX | ISOTHERMAL | OTHER_BC nat

text \<open>The finest grid level, \<^verbatim>\<open>MESH_0\<close>.\<close>

definition MESH_0 :: nat where
  "MESH_0 = 0"

subsection \<open>Execution context\<close>

text \<open>
  Every routine starts with
  \<^verbatim>\<open>int rank = MASTER_NODE; #ifdef HAVE_MPI MPI_Comm_rank(MPI_COMM_WORLD, &rank); #endif\<close>.
  The context holds the build flag and the rank the communicator reports.
\<close>

record exec_context =
  HAVE_MPI :: bool
  comm_rank :: nat

definition get_rank :: "exec_context \<Rightarrow> nat" where
  "get_rank ctx = (if HAVE_MPI ctx then comm_rank ctx else MASTER_NODE)"

subsection \<open>Configuration, mesh, primal solver\<close>

record CConfig =
  Restart :: bool
  Kind_ObjFunc :: ENUM_OBJECTIVE
  Unsteady_Simulation :: ENUM_UNSTEADY
  Kind_Regime :: ENUM_REGIME
  AoA :: su2double
  AoS :: su2double
  Mach_cfg :: su2double
  Velocity_Ref :: su2double
  Pressure_FreeStreamND :: su2double
  Temperature_FreeStreamND :: su2double
  Velocity_FreeStreamND :: "su2double list"
  Sens_Remove_Sharp :: bool
  LimiterCoeff :: su2double
  RefElemLength :: su2double
  SharpEdgesCoeff :: su2double
  Marker_All_KindBC :: "BC_TYPE list"

text \<open>
  A mesh point. \<open>Coord_Derivative\<close> is what \<^verbatim>\<open>SU2_TYPE::GetDerivative(Coord[iDim])\<close>
  reads from the tape after the reverse sweep, and \<open>Coord_Input\<close> tells whether the
  coordinate is still registered as a tape input (\<^verbatim>\<open>AD::ResetInput\<close> clears it).
\<close>

record CPoint =
  GlobalIndex :: nat
  Coord_Derivative :: "su2double list"
  Coord_Input :: "bool list"
  SharpEdge_Distance :: su2double
  Flip_Orientation :: bool
  Domain :: bool

record CVertex =
  Node :: nat
  Normal :: "su2double list"

record CGeometry =
  geo_nDim :: nat
  geo_nPoint :: nat
  geo_nPointDomain :: nat
  Global_nPointDomain :: nat
  geo_node :: "CPoint list"
  vertex :: "CVertex list list"

definition nVertex :: "CGeometry \<Rightarrow> nat \<Rightarrow> nat" where
  "nVertex geometry iMarker = length (vertex geometry ! iMarker)"

text \<open>
  A point of the primal solver: its solution and the adjoint values the tape holds for
  it (\<^verbatim>\<open>GetAdjointSolution\<close>, \<^verbatim>\<open>GetAdjointSolution_time_n\<close>, \<^verbatim>\<open>GetAdjointSolution_time_n1\<close>).
\<close>

record CVariable =
  Solution_d :: "su2double list"
  AdjointSolution :: "su2double list"
  AdjointSolution_time_n :: "su2double list"
  AdjointSolution_time_n1 :: "su2double list"

text \<open>The scalar accessors of the primal solver that \<^verbatim>\<open>RegisterObj_Func\<close> can call.\<close>

datatype accessor =
    GetTotal_CDrag
  | GetTotal_CLift
  | GetTotal_CSideForce
  | GetTotal_CEff
  | GetTotal_CMx
  | GetTotal_CMy
  | GetTotal_CMz
  | GetTotal_CEquivArea
  | GetOneD_TotalPress
  | GetOneD_FluxAvgPress
  | GetOneD_MassFlowRate
  | GetThrust_Nozzle

record CSolver =
  direct_nVar :: nat
  direct_node :: "CVariable list"
  scalar :: "accessor \<Rightarrow> su2double"
  Temperature_Inf :: su2double
  Pressure_Inf :: su2double

subsection \<open>The adjoint solver object and the tape\<close>

record CDiscAdjVariable =
  Solution :: "su2double list"
  Solution_Old :: "su2double list"
  Solution_time_n :: "su2double list"
  Solution_time_n1 :: "su2double list"
  Solution_Direct :: "su2double list"
  Sensitivity :: "su2double list"

text \<open>
  Modelled from the spec: the constructor
  \<^verbatim>\<open>CDiscAdjVariable(val_solution, nDim, nVar, config)\<close>, defined in
  variable_adjoint_discrete.cpp. The adjoint state of a point is a vector of \<open>nVar\<close>
  values, created at setup from the \<open>nVar\<close> solution values given for the point; the
  \<open>nDim\<close> sensitivities and the other vectors start at zero.
\<close>

definition new_CDiscAdjVariable :: "su2double list \<Rightarrow> nat \<Rightarrow> nat \<Rightarrow> CDiscAdjVariable" where
  "new_CDiscAdjVariable val_solution val_ndim val_nvar =
     \<lparr> Solution = take val_nvar val_solution,
       Solution_Old = replicate val_nvar 0,
       Solution_time_n = replicate val_nvar 0,
       Solution_time_n1 = replicate val_nvar 0,
       Solution_Direct = replicate val_nvar 0,
       Sensitivity = replicate val_ndim 0 \<rparr>"

record CDiscAdjSolver =
  nVar :: nat
  nDim :: nat
  nMarker :: nat
  nPoint :: nat
  nPointDomain :: nat
  KindDirect_Solver :: RUNTIME_TYPE
  node :: "CDiscAdjVariable list"
  Solution_buf :: "su2double list"
  CSensitivity :: "su2double list list"
  Sens_Geo :: "su2double list"
  Total_Sens_Geo :: su2double
  ObjFunc_Value :: su2double
  ObjFunc_Derivative :: su2double
  Mach :: su2double
  Alpha :: su2double
  Beta :: su2double
  Pressure :: su2double
  Temperature :: su2double

text \<open>
  The variables the file registers on the tape, and the tape as the two lists of what
  has been registered as input and as output.
\<close>

datatype ad_variable = AD_Mach | AD_Alpha | AD_Temperature | AD_Pressure | AD_ObjFunc_Value

record AD_tape =
  tape_inputs :: "ad_variable list"
  tape_outputs :: "ad_variable list"

subsection \<open>RegisterObj_Func and SetAdj_ObjFunc\<close>

text \<open>
  The switch of \<^verbatim>\<open>RegisterObj_Func\<close>: the accessor a selector calls, if any. The switch
  has no default label.
\<close>

fun objective_accessor :: "ENUM_OBJECTIVE \<Rightarrow> accessor option" where
  "objective_accessor DRAG_COEFFICIENT = Some GetTotal_CDrag"
| "objective_accessor LIFT_COEFFICIENT = Some GetTotal_CLift"
| "objective_accessor SIDEFORCE_COEFFICIENT = Some GetTotal_CSideForce"
| "objective_accessor EFFICIENCY = Some GetTotal_CEff"
| "objective_accessor MOMENT_X_COEFFICIENT = Some GetTotal_CMx"
| "objective_accessor MOMENT_Y_COEFFICIENT = Some GetTotal_CMy"
| "objective_accessor MOMENT_Z_COEFFICIENT = Some GetTotal_CMz"
| "objective_accessor EQUIVALENT_AREA = Some GetTotal_CEquivArea"
| "objective_accessor AVG_TOTAL_PRESSURE = Some GetOneD_TotalPress"
| "objective_accessor AVG_OUTLET_PRESSURE = Some GetOneD_FluxAvgPress"
| "objective_accessor MASS_FLOW_RATE = Some GetOneD_MassFlowRate"
| "objective_accessor THRUST_NOZZLE = Some GetThrust_Nozzle"
| "objective_accessor (OTHER_OBJECTIVE k) = None"

text \<open>
  \<^verbatim>\<open>RegisterObj_Func\<close> returns the accessors it has called on the primal solver, in order,
  the solver object and the tape. The switch runs on every rank; only the registration of
  the output is under \<^verbatim>\<open>if (rank == MASTER_NODE)\<close>.
\<close>

definition RegisterObj_Func ::
  "exec_context \<Rightarrow> CConfig \<Rightarrow> CSolver \<Rightarrow> CDiscAdjSolver \<Rightarrow> AD_tape
     \<Rightarrow> accessor list \<times> CDiscAdjSolver \<times> AD_tape" where
  "RegisterObj_Func ctx config direct_solver solver tape =
     (let rank = get_rank ctx;
          (calls, solver') =
            (case objective_accessor (Kind_ObjFunc config) of
               Some a \<Rightarrow> ([a], solver\<lparr>ObjFunc_Value := scalar direct_solver a\<rparr>)
             | None \<Rightarrow> ([], solver));
          tape' = (if rank = MASTER_NODE
                   then tape\<lparr>tape_outputs := tape_outputs tape @ [AD_ObjFunc_Value]\<rparr>
                   else tape)
      in (calls, solver', tape'))"

definition SetAdj_ObjFunc :: "exec_context \<Rightarrow> CDiscAdjSolver \<Rightarrow> CDiscAdjSolver" where
  "SetAdj_ObjFunc ctx solver =
     (let rank = get_rank ctx
      in if rank = MASTER_NODE
         then solver\<lparr>ObjFunc_Derivative := 1.0\<rparr>
         else solver\<lparr>ObjFunc_Derivative := 0.0\<rparr>)"

text \<open>
  The processes of a run: without MPI there is one process; with MPI the process of
  rank \<open>r\<close> has the context \<open>(True, r)\<close>, for \<open>r\<close> below the size of the communicator.
\<close>

definition mpi_context :: "nat \<Rightarrow> exec_context" where
  "mpi_context r = \<lparr> HAVE_MPI = True, comm_rank = r \<rparr>"

definition serial_context :: exec_context where
  "serial_context = \<lparr> HAVE_MPI = False, comm_rank = 0 \<rparr>"

subsection \<open>RegisterVariables\<close>

text \<open>\<^verbatim>\<open>const su2double PI_NUMBER = 4.0 * atan(1.0)\<close>, from option_structure.hpp.\<close>

definition PI_NUMBER :: su2double where
  "PI_NUMBER = 4.0 * arctan 1.0"

text \<open>
  The local variable \<^verbatim>\<open>SoundSpeed\<close> of \<^verbatim>\<open>RegisterVariables\<close>: 0.0, then assigned under
  \<^verbatim>\<open>if (nDim == 2)\<close> and under \<^verbatim>\<open>if (nDim == 3)\<close>, from the first free-stream velocity
  component and the angles and Mach number just read from the configuration. A division
  by zero gives an infinity or NaN in the source and is outside the model: the
  properties below are stated where the divisors are not zero.
\<close>

definition freestream_SoundSpeed :: "nat \<Rightarrow> CConfig \<Rightarrow> su2double" where
  "freestream_SoundSpeed ndim config =
     (let Velocity_Ref' = Velocity_Ref config;
          Alpha' = AoA config * PI_NUMBER / 180.0;
          Beta' = AoS config * PI_NUMBER / 180.0;
          Mach' = Mach_cfg config;
          SoundSpeed0 = 0.0;
          SoundSpeed2 = (if ndim = 2
                         then Velocity_FreeStreamND config ! 0 * Velocity_Ref' / (cos Alpha' * Mach')
                         else SoundSpeed0)
      in if ndim = 3
         then Velocity_FreeStreamND config ! 0 * Velocity_Ref' / (cos Alpha' * cos Beta' * Mach')
         else SoundSpeed2)"

definition RegisterVariables ::
  "CConfig \<Rightarrow> bool \<Rightarrow> CSolver \<Rightarrow> CDiscAdjSolver \<Rightarrow> AD_tape
     \<Rightarrow> CConfig \<times> CSolver \<times> CDiscAdjSolver \<times> AD_tape" where
  "RegisterVariables config reset direct_solver solver tape =
     (if Kind_Regime config = COMPRESSIBLE \<and> KindDirect_Solver solver = RUNTIME_FLOW_SYS
      then
        let Velocity_Ref' = Velocity_Ref config;
            Alpha' = AoA config * PI_NUMBER / 180.0;
            Beta' = AoS config * PI_NUMBER / 180.0;
            Mach' = Mach_cfg config;
            Pressure' = Pressure_FreeStreamND config;
            Temperature' = Temperature_FreeStreamND config;
            SoundSpeed = freestream_SoundSpeed (nDim solver) config;
            tape' = (if \<not> reset
                     then tape\<lparr>tape_inputs := tape_inputs tape
                                  @ [AD_Mach, AD_Alpha, AD_Temperature, AD_Pressure]\<rparr>
                     else tape);
            V = Velocity_FreeStreamND config;
            V2 = (if nDim solver = 2
                  then (V[0 := cos Alpha' * Mach' * SoundSpeed / Velocity_Ref'])
                         [1 := sin Alpha' * Mach' * SoundSpeed / Velocity_Ref']
                  else V);
            V3 = (if nDim solver = 3
                  then ((V2[0 := cos Alpha' * cos Beta' * Mach' * SoundSpeed / Velocity_Ref'])
                          [1 := sin Beta' * Mach' * SoundSpeed / Velocity_Ref'])
                          [2 := sin Alpha' * cos Beta' * Mach' * SoundSpeed / Velocity_Ref']
                  else V2)
        in (config\<lparr>Velocity_FreeStreamND := V3,
                   Temperature_FreeStreamND := Temperature',
                   Pressure_FreeStreamND := Pressure'\<rparr>,
            direct_solver\<lparr>Temperature_Inf := Temperature', Pressure_Inf := Pressure'\<rparr>,
            solver\<lparr>Alpha := Alpha', Beta := Beta', Mach := Mach',
                   Pressure := Pressure', Temperature := Temperature'\<rparr>,
            tape')
      else (config, direct_solver, solver, tape))"

subsection \<open>ExtractAdjoint_Solution\<close>

text \<open>
  Modelled from the spec: the setters and getters of the point variables
  (\<^verbatim>\<open>SetSolution\<close>, \<^verbatim>\<open>Set_OldSolution\<close>, \<^verbatim>\<open>Set_Solution_time_n\<close>, \<^verbatim>\<open>GetAdjointSolution\<close>, ...),
  declared in variable_structure.hpp, copy the \<open>nVar\<close> values of a point:
  \<^verbatim>\<open>for (iVar = 0; iVar < n; iVar++) dst[iVar] = src[iVar]\<close>, on vectors that have at
  least \<open>n\<close> entries.
\<close>

definition copy_n :: "nat \<Rightarrow> 'a list \<Rightarrow> 'a list \<Rightarrow> 'a list" where
  "copy_n n src dst = take n src @ drop n dst"

text \<open>
  The three loops over the points. The state of the first is the buffer \<^verbatim>\<open>Solution\<close> of
  the solver and the array \<^verbatim>\<open>node\<close>. The residual bookkeeping that follows
  (\<^verbatim>\<open>SetRes_RMS\<close>, \<^verbatim>\<open>AddRes_Max\<close>, \<^verbatim>\<open>SetResidual_RMS\<close>) belongs to the base class, reads the
  nodes and writes only the residual arrays, which are not part of this model.
\<close>

definition extract_point ::
  "nat \<Rightarrow> CSolver \<Rightarrow> nat \<Rightarrow> su2double list \<times> CDiscAdjVariable list
     \<Rightarrow> su2double list \<times> CDiscAdjVariable list" where
  "extract_point nvar direct_solver iPoint st =
     (case st of (buf, nd) \<Rightarrow>
        let v = nd ! iPoint;
            v1 = v\<lparr>Solution_Old := copy_n nvar (Solution v) (Solution_Old v)\<rparr>;
            buf' = copy_n nvar (AdjointSolution (direct_node direct_solver ! iPoint)) buf;
            v2 = v1\<lparr>Solution := copy_n nvar buf' (Solution v1)\<rparr>
        in (buf', nd[iPoint := v2]))"

definition extract_point_time_n ::
  "nat \<Rightarrow> CSolver \<Rightarrow> nat \<Rightarrow> su2double list \<times> CDiscAdjVariable list
     \<Rightarrow> su2double list \<times> CDiscAdjVariable list" where
  "extract_point_time_n nvar direct_solver iPoint st =
     (case st of (buf, nd) \<Rightarrow>
        let v = nd ! iPoint;
            buf' = copy_n nvar (AdjointSolution_time_n (direct_node direct_solver ! iPoint)) buf;
            v' = v\<lparr>Solution_time_n := copy_n nvar buf' (Solution_time_n v)\<rparr>
        in (buf', nd[iPoint := v']))"

definition extract_point_time_n1 ::
  "nat \<Rightarrow> CSolver \<Rightarrow> nat \<Rightarrow> su2double list \<times> CDiscAdjVariable list
     \<Rightarrow> su2double list \<times> CDiscAdjVariable list" where
  "extract_point_time_n1 nvar direct_solver iPoint st =
     (case st of (buf, nd) \<Rightarrow>
        let v = nd ! iPoint;
            buf' = copy_n nvar (AdjointSolution_time_n1 (direct_node direct_solver ! iPoint)) buf;
            v' = v\<lparr>Solution_time_n1 := copy_n nvar buf' (Solution_time_n1 v)\<rparr>
        in (buf', nd[iPoint := v']))"

definition ExtractAdjoint_Solution :: "CConfig \<Rightarrow> CSolver \<Rightarrow> CDiscAdjSolver \<Rightarrow> CDiscAdjSolver" where
  "ExtractAdjoint_Solution config direct_solver solver =
     (let time_n_needed = (Unsteady_Simulation config = DT_STEPPING_1ST
                           \<or> Unsteady_Simulation config = DT_STEPPING_2ND);
          time_n1_needed = (Unsteady_Simulation config = DT_STEPPING_2ND);
          st0 = (Solution_buf solver, node solver);
          st1 = fold (extract_point (nVar solver) direct_solver) [0..<nPoint solver] st0;
          st2 = (if time_n_needed
                 then fold (extract_point_time_n (nVar solver) direct_solver) [0..<nPoint solver] st1
                 else st1);
          st3 = (if time_n1_needed
                 then fold (extract_point_time_n1 (nVar solver) direct_solver) [0..<nPoint solver] st2
                 else st2)
      in solver\<lparr>Solution_buf := fst st3, node := snd st3\<rparr>)"

subsection \<open>The rounding of the double format\<close>

text \<open>
  The integer nearest to a real, ties to the even one.
\<close>

definition round_half_even :: "real \<Rightarrow> int" where
  "round_half_even y =
     (let f = \<lfloor>y\<rfloor>
      in if y - of_int f < 1 / 2 then f
         else if 1 / 2 < y - of_int f then f + 1
         else if even f then f else f + 1)"

text \<open>
  The double nearest to a real, ties to even (IEEE 754 binary64 in its default rounding
  mode), were the exponent unbounded above: 53 significant bits, the exponent of a normal
  number at least -1022, and below that the fixed spacing of the subnormal numbers.
\<close>

definition round_double :: "real \<Rightarrow> su2double" where
  "round_double x =
     (if x = 0 then 0
      else let e = max \<lfloor>log 2 \<bar>x\<bar>\<rfloor> (- 1022);
               ulp = 2 powi (e - 52)
           in ulp * of_int (round_half_even (x / ulp)))"

text \<open>
  The values of a local variable of type double: the finite ones, the two infinities and
  the result of an invalid operation. The configuration and the mesh hold finite values.
\<close>

datatype double_value = Finite su2double | PlusInfinity | MinusInfinity | NaN

definition DBL_MAX :: su2double where
  "DBL_MAX = (2 - 1 / 2 ^ 52) * 2 ^ 1023"

text \<open>
  The stored result of an operation whose exact result is \<open>x\<close>: it overflows to an infinity
  when the rounding with unbounded exponent is beyond the largest double.
\<close>

definition to_double :: "real \<Rightarrow> double_value" where
  "to_double x =
     (let r = round_double x
      in if DBL_MAX < r then PlusInfinity
         else if r < - DBL_MAX then MinusInfinity
         else Finite r)"

text \<open>\<^verbatim>\<open>a * b\<close> for a finite \<open>a\<close>, and \<^verbatim>\<open>a < b\<close> for a finite \<open>a\<close>.\<close>

fun times_double :: "su2double \<Rightarrow> double_value \<Rightarrow> double_value" where
  "times_double a (Finite b) = to_double (a * b)"
| "times_double a PlusInfinity =
     (if a = 0 then NaN else if 0 < a then PlusInfinity else MinusInfinity)"
| "times_double a MinusInfinity =
     (if a = 0 then NaN else if 0 < a then MinusInfinity else PlusInfinity)"
| "times_double a NaN = NaN"

fun less_double :: "su2double \<Rightarrow> double_value \<Rightarrow> bool" where
  "less_double a (Finite b) = (a < b)"
| "less_double a PlusInfinity = True"
| "less_double a MinusInfinity = False"
| "less_double a NaN = False"

subsection \<open>SetSensitivity\<close>

text \<open>
  The body of the inner loop over \<open>iDim\<close>, on the mesh (whose coordinate is unregistered
  from the tape) and the array \<^verbatim>\<open>node\<close>. The two products of the threshold are products
  of doubles: \<^verbatim>\<open>eps\<close> is rounded when it is computed, and so is its product with the
  sharp-edge coefficient, before the comparison; each may overflow.
\<close>

definition SetSensitivity_dim ::
  "CConfig \<Rightarrow> nat \<Rightarrow> nat \<Rightarrow> CGeometry \<times> CDiscAdjVariable list
     \<Rightarrow> CGeometry \<times> CDiscAdjVariable list" where
  "SetSensitivity_dim config iPoint iDim st =
     (case st of (geometry, nd) \<Rightarrow>
        let Coord = geo_node geometry ! iPoint;
            Sensitivity0 = Coord_Derivative Coord ! iDim;
            geometry' = geometry\<lparr>geo_node := (geo_node geometry)
                          [iPoint := Coord\<lparr>Coord_Input := (Coord_Input Coord)[iDim := False]\<rparr>]\<rparr>;
            Sensitivity1 =
              (if Sens_Remove_Sharp config
               then (let eps = to_double (LimiterCoeff config * RefElemLength config)
                     in if less_double (SharpEdge_Distance (geo_node geometry' ! iPoint))
                             (times_double (SharpEdgesCoeff config) eps)
                        then 0.0 else Sensitivity0)
               else Sensitivity0);
            v = nd ! iPoint
        in (geometry', nd[iPoint := v\<lparr>Sensitivity := (Sensitivity v)[iDim := Sensitivity1]\<rparr>]))"

definition SetSensitivity_point ::
  "CConfig \<Rightarrow> nat \<Rightarrow> nat \<Rightarrow> CGeometry \<times> CDiscAdjVariable list
     \<Rightarrow> CGeometry \<times> CDiscAdjVariable list" where
  "SetSensitivity_point config ndim iPoint st =
     fold (SetSensitivity_dim config iPoint) [0..<ndim] st"

definition SetSensitivity_points ::
  "CGeometry \<Rightarrow> CConfig \<Rightarrow> CDiscAdjSolver \<Rightarrow> CGeometry \<times> CDiscAdjSolver" where
  "SetSensitivity_points geometry config solver =
     (let st = fold (SetSensitivity_point config (nDim solver)) [0..<nPoint solver]
                 (geometry, node solver)
      in (fst st, solver\<lparr>node := snd st\<rparr>))"

subsection \<open>SetSurface_Sensitivity\<close>

text \<open>The loop over \<open>iDim\<close> at one vertex: the pair \<^verbatim>\<open>(Prod, Area)\<close>.\<close>

definition vertex_Prod_Area ::
  "nat \<Rightarrow> su2double list \<Rightarrow> su2double list \<Rightarrow> su2double \<times> su2double" where
  "vertex_Prod_Area ndim Normal' Sens' =
     fold (\<lambda>iDim (Prod, Area).
             let SensDim = Sens' ! iDim
             in (Prod + Normal' ! iDim * SensDim, Area + Normal' ! iDim * Normal' ! iDim))
          [0..<ndim] (0.0, 0.0)"

text \<open>The local variable \<^verbatim>\<open>Sens\<close> at the vertex \<open>iVertex\<close> of the marker \<open>iMarker\<close>.\<close>

definition vertex_Sens :: "CGeometry \<Rightarrow> CDiscAdjSolver \<Rightarrow> nat \<Rightarrow> nat \<Rightarrow> su2double" where
  "vertex_Sens geometry solver iMarker iVertex =
     (let iPoint = Node (vertex geometry ! iMarker ! iVertex);
          Normal' = Normal (vertex geometry ! iMarker ! iVertex);
          (Prod, Area) = vertex_Prod_Area (nDim solver) Normal' (Sensitivity (node solver ! iPoint));
          Area' = sqrt Area
      in Prod / Area')"

text \<open>The body of the loop over the vertices of a marker, on \<^verbatim>\<open>(CSensitivity, Sens_Geo)\<close>.\<close>

definition surface_vertex ::
  "CGeometry \<Rightarrow> CDiscAdjSolver \<Rightarrow> nat \<Rightarrow> nat \<Rightarrow> su2double list list \<times> su2double list
     \<Rightarrow> su2double list list \<times> su2double list" where
  "surface_vertex geometry solver iMarker iVertex st =
     (case st of (CS, SG) \<Rightarrow>
        let iPoint = Node (vertex geometry ! iMarker ! iVertex);
            Sens = vertex_Sens geometry solver iMarker iVertex;
            CS1 = CS[iMarker := (CS ! iMarker)[iVertex := - Sens]];
            CS2 = (if Flip_Orientation (geo_node geometry ! iPoint)
                   then CS1[iMarker := (CS1 ! iMarker)[iVertex := - (CS1 ! iMarker ! iVertex)]]
                   else CS1);
            SG' = (if Domain (geo_node geometry ! iPoint)
                   then SG[iMarker := SG ! iMarker + Sens * Sens]
                   else SG)
        in (CS2, SG'))"

definition wall_marker :: "CConfig \<Rightarrow> nat \<Rightarrow> bool" where
  "wall_marker config iMarker =
     (Marker_All_KindBC config ! iMarker = EULER_WALL
      \<or> Marker_All_KindBC config ! iMarker = HEAT_FLUX
      \<or> Marker_All_KindBC config ! iMarker = ISOTHERMAL)"

text \<open>
  The body of the loop over the markers, on
  \<^verbatim>\<open>(CSensitivity, Sens_Geo, Total_Sens_Geo_local)\<close>.
\<close>

definition surface_marker ::
  "CGeometry \<Rightarrow> CConfig \<Rightarrow> CDiscAdjSolver \<Rightarrow> nat
     \<Rightarrow> su2double list list \<times> su2double list \<times> su2double
     \<Rightarrow> su2double list list \<times> su2double list \<times> su2double" where
  "surface_marker geometry config solver iMarker st =
     (case st of (CS, SG, Total_Sens_Geo_local) \<Rightarrow>
        let SG0 = SG[iMarker := 0.0]
        in if wall_marker config iMarker
           then (let (CS', SG') = fold (surface_vertex geometry solver iMarker)
                                    [0..<nVertex geometry iMarker] (CS, SG0)
                 in (CS', SG', Total_Sens_Geo_local + sqrt (SG' ! iMarker)))
           else (CS, SG0, Total_Sens_Geo_local))"

text \<open>
  The part of \<^verbatim>\<open>SetSurface_Sensitivity\<close> before the reduction, on one process: the solver
  object and \<^verbatim>\<open>Total_Sens_Geo_local\<close>.
\<close>

definition SetSurface_Sensitivity_local ::
  "CGeometry \<Rightarrow> CConfig \<Rightarrow> CDiscAdjSolver \<Rightarrow> CDiscAdjSolver \<times> su2double" where
  "SetSurface_Sensitivity_local geometry config solver =
     (let (CS, SG, Total_Sens_Geo_local) =
            fold (surface_marker geometry config solver) [0..<nMarker solver]
              (CSensitivity solver, Sens_Geo solver, 0.0)
      in (solver\<lparr>CSensitivity := CS, Sens_Geo := SG, Total_Sens_Geo := 0.0\<rparr>,
          Total_Sens_Geo_local))"

text \<open>
  \<^verbatim>\<open>SU2_MPI::Allreduce(..., MPI_SUM, MPI_COMM_WORLD)\<close> on one scalar: every process receives
  the sum of what the processes sent.
\<close>

definition Allreduce_SUM :: "su2double list \<Rightarrow> su2double" where
  "Allreduce_SUM sendbufs = sum_list sendbufs"

text \<open>
  \<^verbatim>\<open>SetSurface_Sensitivity\<close> on all the processes of a run, each with its mesh partition,
  the configuration and its solver object: with MPI the local totals are reduced, without
  MPI the total is the local one.
\<close>

definition SetSurface_Sensitivity ::
  "bool \<Rightarrow> (CGeometry \<times> CConfig \<times> CDiscAdjSolver) list \<Rightarrow> CDiscAdjSolver list" where
  "SetSurface_Sensitivity have_mpi procs =
     (let locals = map (\<lambda>(geometry, config, solver).
                          SetSurface_Sensitivity_local geometry config solver) procs;
          total = Allreduce_SUM (map snd locals)
      in map (\<lambda>(solver, Total_Sens_Geo_local).
                solver\<lparr>Total_Sens_Geo := (if have_mpi then total else Total_Sens_Geo_local)\<rparr>)
             locals)"

text \<open>\<^verbatim>\<open>SetSensitivity\<close> on all the processes: the loop over the points, then the call.\<close>

definition SetSensitivity ::
  "bool \<Rightarrow> (CGeometry \<times> CConfig \<times> CDiscAdjSolver) list \<Rightarrow> (CGeometry \<times> CDiscAdjSolver) list" where
  "SetSensitivity have_mpi procs =
     (let after = map (\<lambda>(geometry, config, solver).
                         (SetSensitivity_points geometry config solver, config)) procs
      in zip (map (\<lambda>((geometry', solver'), config). geometry') after)
             (SetSurface_Sensitivity have_mpi
                (map (\<lambda>((geometry', solver'), config). (geometry', config, solver')) after)))"

subsection \<open>The constructor and the restart file\<close>

text \<open>
  How the constructor can fail: \<^verbatim>\<open>exit(EXIT_FAILURE)\<close> of the calling process, with the
  lines it has printed before, or an access outside an array or through a pointer that
  was never set, which C++ leaves undefined.
\<close>

datatype failure = EXIT_FAILURE "string list" | UNDEFINED_BEHAVIOUR

text \<open>
  A line of the restart file as \<^verbatim>\<open>istringstream\<close> reads it, token by token. The index is
  the number the first token denotes (for a token with a minus sign, the number it
  wraps to), \<open>None\<close> when the line has no such token. A column is \<open>Extracted v\<close> when
  its token converts to the double \<open>v\<close>, and \<open>Failed w\<close> when the extraction fails on it
  (the token is not a number, or its value is beyond the range of the format): the
  stream then stores \<open>w\<close> in the target, if there is a \<open>w\<close>, and sets its failbit.
\<close>

datatype extraction = Extracted su2double | Failed "su2double option"

record restart_line =
  index_col :: "nat option"
  columns :: "extraction list"

text \<open>The largest \<^verbatim>\<open>unsigned long\<close>, of 64 bits.\<close>

definition ULONG_MAX :: nat where
  "ULONG_MAX = 2 ^ 64 - 1"

text \<open>
  \<^verbatim>\<open>point_line >> index\<close>, with \<^verbatim>\<open>unsigned long index\<close>: the extraction succeeds when
  there is a number and it fits; otherwise the stream sets its failbit. The variable
  \<^verbatim>\<open>index\<close> is not read afterwards.
\<close>

definition index_extracts :: "restart_line \<Rightarrow> bool" where
  "index_extracts point_line =
     (case index_col point_line of None \<Rightarrow> False | Some i \<Rightarrow> i \<le> ULONG_MAX)"

text \<open>
  \<^verbatim>\<open>point_line >> x\<close> for a \<^verbatim>\<open>su2double x\<close>, on the stream as the pair of its state (good or
  failed) and the tokens left: a failed stream extracts nothing and leaves the target,
  and so does a stream at the end of the line, which fails.
\<close>

fun extract_value ::
  "bool \<times> extraction list \<Rightarrow> su2double \<Rightarrow> (bool \<times> extraction list) \<times> su2double" where
  "extract_value (False, ts) x = ((False, ts), x)"
| "extract_value (True, []) x = ((False, []), x)"
| "extract_value (True, Extracted v # ts) x = ((True, ts), v)"
| "extract_value (True, Failed w # ts) x = ((False, ts), (case w of None \<Rightarrow> x | Some y \<Rightarrow> y))"

text \<open>A loop whose body can fail: it stops at the first failure.\<close>

primrec fold_failure :: "('a \<Rightarrow> 's \<Rightarrow> failure + 's) \<Rightarrow> 'a list \<Rightarrow> 's \<Rightarrow> failure + 's" where
  "fold_failure f [] s = Inr s"
| "fold_failure f (x # xs) s =
     (case f x s of Inl e \<Rightarrow> Inl e | Inr s' \<Rightarrow> fold_failure f xs s')"

text \<open>
  \<^verbatim>\<open>Global2Local\<close>: an array of \<^verbatim>\<open>long\<close> of size \<^verbatim>\<open>GetGlobal_nPointDomain()\<close>, set to -1, then
  filled at the global index of every point of the partition.
\<close>

definition fill_Global2Local :: "CGeometry \<Rightarrow> nat \<Rightarrow> int list \<Rightarrow> failure + int list" where
  "fill_Global2Local geometry iPoint G2L =
     (if iPoint < length (geo_node geometry)
         \<and> GlobalIndex (geo_node geometry ! iPoint) < length G2L
      then Inr (G2L[GlobalIndex (geo_node geometry ! iPoint) := int iPoint])
      else Inl UNDEFINED_BEHAVIOUR)"

definition build_Global2Local :: "CGeometry \<Rightarrow> nat \<Rightarrow> failure + int list" where
  "build_Global2Local geometry npointdomain =
     fold_failure (fill_Global2Local geometry) [0..<npointdomain]
       (replicate (Global_nPointDomain geometry) (- 1))"

text \<open>
  \<^verbatim>\<open>point_line >> index\<close>, then \<open>skipVars\<close> values into \<^verbatim>\<open>dull_val\<close>, then \<open>nVar\<close> values into
  the buffer \<^verbatim>\<open>Solution\<close>, which is what the routine keeps. The variable \<^verbatim>\<open>dull_val\<close> is
  never read; it starts here at 0.
\<close>

definition read_Solution :: "nat \<Rightarrow> nat \<Rightarrow> restart_line \<Rightarrow> su2double list \<Rightarrow> su2double list" where
  "read_Solution skipVars nvar point_line buf =
     (let stream0 = (index_extracts point_line, columns point_line);
          (stream1, dull_val) =
            fold (\<lambda>iVar (stream, dull_val). extract_value stream dull_val) [0..<skipVars]
              (stream0, 0);
          (stream2, buf') =
            fold (\<lambda>iVar (stream, buf).
                    let (stream', x) = extract_value stream (buf ! iVar)
                    in (stream', buf[iVar := x]))
              [0..<nvar] (stream1, buf)
      in buf')"

text \<open>
  The body of \<^verbatim>\<open>while (getline (restart_file, text_line))\<close>, on
  \<^verbatim>\<open>(iPoint_Global, Solution, node)\<close>. An entry of \<^verbatim>\<open>node\<close> is \<open>None\<close> until a variable is
  allocated for it.
\<close>

definition read_restart_line ::
  "int list \<Rightarrow> nat \<Rightarrow> nat \<Rightarrow> nat \<Rightarrow> restart_line
     \<Rightarrow> nat \<times> su2double list \<times> CDiscAdjVariable option list
     \<Rightarrow> failure + nat \<times> su2double list \<times> CDiscAdjVariable option list" where
  "read_restart_line Global2Local skipVars ndim nvar point_line st =
     (case st of (iPoint_Global, buf, nd) \<Rightarrow>
        if iPoint_Global < length Global2Local
        then (let iPoint_Local = Global2Local ! iPoint_Global
              in if iPoint_Local \<ge> 0
                 then (let buf' = read_Solution skipVars nvar point_line buf
                       in if nat iPoint_Local < length nd
                          then Inr (iPoint_Global + 1, buf',
                                    nd[nat iPoint_Local := Some (new_CDiscAdjVariable buf' ndim nvar)])
                          else Inl UNDEFINED_BEHAVIOUR)
                 else Inr (iPoint_Global + 1, buf, nd))
        else Inl UNDEFINED_BEHAVIOUR)"

text \<open>
  \<^verbatim>\<open>unsigned short skipVars = nDim; if (Kind_Solver == RUNTIME_TURB_SYS) skipVars += nDim+2;\<close>
\<close>

definition restart_skipVars :: "RUNTIME_TYPE \<Rightarrow> nat \<Rightarrow> nat" where
  "restart_skipVars Kind_Solver ndim =
     (if Kind_Solver = RUNTIME_TURB_SYS then ndim + (ndim + 2) else ndim)"

text \<open>
  The branch of the constructor that reads an open restart file: the first line is the
  header, the others are read in order; then the halo points, from \<open>nPointDomain\<close> on.
\<close>

definition load_restart ::
  "CGeometry \<Rightarrow> RUNTIME_TYPE \<Rightarrow> nat \<Rightarrow> nat \<Rightarrow> nat \<Rightarrow> nat \<Rightarrow> restart_line list \<Rightarrow> su2double list
     \<Rightarrow> failure + su2double list \<times> CDiscAdjVariable option list" where
  "load_restart geometry Kind_Solver ndim nvar npoint npointdomain file_lines buf =
     (case build_Global2Local geometry npointdomain of
        Inl e \<Rightarrow> Inl e
      | Inr Global2Local \<Rightarrow>
          let skipVars = restart_skipVars Kind_Solver ndim
          in (case fold_failure (read_restart_line Global2Local skipVars ndim nvar)
                     (drop 1 file_lines) (0, buf, replicate npoint None) of
                Inl e \<Rightarrow> Inl e
              | Inr (iPoint_Global, buf', nd) \<Rightarrow>
                  Inr (buf', fold (\<lambda>iPoint nd. nd[iPoint := Some (new_CDiscAdjVariable buf' ndim nvar)])
                               [npointdomain..<npoint] nd)))"

text \<open>
  \<^verbatim>\<open>node[iPoint]->SetSolution_Direct(direct_solver->node[iPoint]->GetSolution())\<close> for every
  point: undefined where \<^verbatim>\<open>node[iPoint]\<close> was never allocated.
\<close>

definition store_direct ::
  "nat \<Rightarrow> CSolver \<Rightarrow> nat \<Rightarrow> CDiscAdjVariable option list \<Rightarrow> failure + CDiscAdjVariable option list" where
  "store_direct nvar direct_solver iPoint nd =
     (if iPoint < length nd \<and> iPoint < length (direct_node direct_solver)
      then (case nd ! iPoint of
              None \<Rightarrow> Inl UNDEFINED_BEHAVIOUR
            | Some v \<Rightarrow>
                Inr (nd[iPoint := Some (v\<lparr>Solution_Direct :=
                       copy_n nvar (Solution_d (direct_node direct_solver ! iPoint))
                         (Solution_Direct v)\<rparr>)]))
      else Inl UNDEFINED_BEHAVIOUR)"

text \<open>
  The constructor. \<open>filename\<close> is the name of the adjoint restart file, which the
  configuration derives from its solution file name and its objective
  (\<^verbatim>\<open>GetObjFunc_Extension\<close>), and \<open>restart_file\<close> what opening that file yields for this
  process: \<open>None\<close> when \<^verbatim>\<open>restart_file.fail()\<close>, the lines of the file otherwise. The
  members the constructor does not assign keep what \<open>raw\<close>, the storage of the object,
  held.
\<close>

definition CDiscAdjSolver_ctor ::
  "exec_context \<Rightarrow> CGeometry \<Rightarrow> CConfig \<Rightarrow> CSolver \<Rightarrow> RUNTIME_TYPE \<Rightarrow> nat
     \<Rightarrow> string \<Rightarrow> restart_line list option \<Rightarrow> CDiscAdjSolver \<Rightarrow> failure + CDiscAdjSolver" where
  "CDiscAdjSolver_ctor ctx geometry config direct_solver Kind_Solver iMesh filename restart_file raw =
     (let restart = Restart config;
          rank = get_rank ctx;
          nvar = direct_nVar direct_solver;
          ndim = geo_nDim geometry;
          nmarker = length (Marker_All_KindBC config);
          npoint = geo_nPoint geometry;
          npointdomain = geo_nPointDomain geometry;
          buf = replicate nvar (1 / 10 ^ 16);
          CS = map (\<lambda>iMarker. replicate (nVertex geometry iMarker) 0.0) [0..<nmarker];
          loaded =
            (if \<not> restart \<or> iMesh \<noteq> MESH_0
             then Inr (buf, replicate npoint (Some (new_CDiscAdjVariable buf ndim nvar)))
             else (case restart_file of
                     None \<Rightarrow>
                       Inl (EXIT_FAILURE
                              (if rank = MASTER_NODE
                               then [''There is no adjoint restart file!! '' @ filename @ ''.'']
                               else []))
                   | Some file_lines \<Rightarrow>
                       load_restart geometry Kind_Solver ndim nvar npoint npointdomain file_lines buf))
      in case loaded of
           Inl e \<Rightarrow> Inl e
         | Inr (buf', nd) \<Rightarrow>
             (case fold_failure (store_direct nvar direct_solver) [0..<npoint] nd of
                Inl e \<Rightarrow> Inl e
              | Inr nd' \<Rightarrow>
                  Inr (raw\<lparr>nVar := nvar, nDim := ndim, nMarker := nmarker,
                           nPoint := npoint, nPointDomain := npointdomain,
                           KindDirect_Solver := Kind_Solver,
                           node := map the nd',
                           Solution_buf := buf',
                           CSensitivity := CS,
                           Sens_Geo := replicate nmarker 0.0\<rparr>)))"

text \<open>The constructor on every process of a run, each with its own inputs.\<close>

definition construct_all ::
  "(exec_context \<times> CGeometry \<times> CConfig \<times> CSolver \<times> RUNTIME_TYPE \<times> nat
      \<times> string \<times> restart_line list option \<times> CDiscAdjSolver) list
     \<Rightarrow> (failure + CDiscAdjSolver) list" where
  "construct_all procs =
     map (\<lambda>(ctx, geometry, config, direct_solver, Kind_Solver, iMesh, filename, restart_file, raw).
            CDiscAdjSolver_ctor ctx geometry config direct_solver Kind_Solver iMesh
              filename restart_file raw) procs"

subsection \<open>The surface quantities as the specification states them\<close>

text \<open>
  The projection of a coordinate-derivative vector onto a unit normal: the dot product
  with the normal, divided by the magnitude of the normal.
\<close>

definition normal_projection :: "nat \<Rightarrow> su2double list \<Rightarrow> su2double list \<Rightarrow> su2double" where
  "normal_projection ndim normal derivative =
     (\<Sum>d<ndim. normal ! d * derivative ! d) / sqrt (\<Sum>d<ndim. normal ! d * normal ! d)"


text \<open>
  The magnitude of a marker: the square root of the sum of the squares of its per-vertex
  sensitivities, over the vertices whose point the partition owns.
\<close>

definition marker_magnitude :: "CGeometry \<Rightarrow> su2double list list \<Rightarrow> nat \<Rightarrow> su2double" where
  "marker_magnitude geometry CS iMarker =
     sqrt (\<Sum>iVertex<nVertex geometry iMarker.
             if Domain (geo_node geometry ! Node (vertex geometry ! iMarker ! iVertex))
             then (CS ! iMarker ! iVertex)\<^sup>2 else 0)"

text \<open>
  The rank-local total of a process: the sum of the magnitudes of its selected markers,
  read from the per-vertex sensitivities its solver object holds.
\<close>

definition rank_local_total :: "CGeometry \<Rightarrow> CConfig \<Rightarrow> CDiscAdjSolver \<Rightarrow> su2double" where
  "rank_local_total geometry config solver =
     (\<Sum>iMarker<nMarker solver.
        if wall_marker config iMarker
        then marker_magnitude geometry (CSensitivity solver) iMarker else 0)"

text \<open>
  The arrays \<^verbatim>\<open>CSensitivity\<close> and \<^verbatim>\<open>Sens_Geo\<close> have the sizes the constructor allocates:
  a row per marker, an entry per vertex of the marker.
\<close>

definition surface_arrays_ok :: "CGeometry \<Rightarrow> CDiscAdjSolver \<Rightarrow> bool" where
  "surface_arrays_ok geometry solver =
     (nMarker solver \<le> length (CSensitivity solver)
      \<and> nMarker solver \<le> length (Sens_Geo solver)
      \<and> (\<forall>iMarker<nMarker solver.
            nVertex geometry iMarker \<le> length (CSensitivity solver ! iMarker)))"

subsection \<open>A small run, used to instantiate the properties\<close>

text \<open>
  A two-dimensional partition of two points and two markers, the first an Euler wall of
  two vertices. The local point 0 has the global index 1 and the local point 1 the
  global index 0; the point 1 lies within the sharp-edge threshold \<open>3 * (2 * 1)\<close> and
  its orientation is flipped.
\<close>

definition ex_config :: CConfig where
  "ex_config =
     \<lparr> Restart = True, Kind_ObjFunc = DRAG_COEFFICIENT, Unsteady_Simulation = DT_STEPPING_2ND,
       Kind_Regime = COMPRESSIBLE, AoA = 0, AoS = 0, Mach_cfg = 2, Velocity_Ref = 1,
       Pressure_FreeStreamND = 1, Temperature_FreeStreamND = 1,
       Velocity_FreeStreamND = [3, 5, 0],
       Sens_Remove_Sharp = True, LimiterCoeff = 2, RefElemLength = 1, SharpEdgesCoeff = 3,
       Marker_All_KindBC = [EULER_WALL, OTHER_BC 0] \<rparr>"

definition ex_geometry :: CGeometry where
  "ex_geometry =
     \<lparr> geo_nDim = 2, geo_nPoint = 2, geo_nPointDomain = 2, Global_nPointDomain = 2,
       geo_node =
         [\<lparr> GlobalIndex = 1, Coord_Derivative = [3, 4], Coord_Input = [True, True],
            SharpEdge_Distance = 10, Flip_Orientation = False, Domain = True \<rparr>,
          \<lparr> GlobalIndex = 0, Coord_Derivative = [5, 7], Coord_Input = [True, True],
            SharpEdge_Distance = 1, Flip_Orientation = True, Domain = True \<rparr>],
       vertex =
         [[\<lparr> Node = 0, Normal = [2, 0] \<rparr>, \<lparr> Node = 1, Normal = [0, 1] \<rparr>],
          [\<lparr> Node = 0, Normal = [1, 0] \<rparr>]] \<rparr>"

text \<open>
  The same run at the edge of the sharp-edge threshold: both coefficients are
  \<open>1 + 1 / 2 ^ 30\<close> and the point 0 lies at the distance \<open>1 + 1 / 2 ^ 29\<close>, which is below the
  exact product of the coefficients and not below their product as doubles.
\<close>

definition ex_edge_config :: CConfig where
  "ex_edge_config =
     ex_config\<lparr> LimiterCoeff := 1 + 1 / 2 ^ 30, RefElemLength := 1,
                SharpEdgesCoeff := 1 + 1 / 2 ^ 30 \<rparr>"

definition ex_edge_geometry :: CGeometry where
  "ex_edge_geometry =
     ex_geometry\<lparr> geo_node :=
       [\<lparr> GlobalIndex = 1, Coord_Derivative = [3, 4], Coord_Input = [True, True],
          SharpEdge_Distance = 1 + 1 / 2 ^ 29, Flip_Orientation = False, Domain = True \<rparr>,
        \<lparr> GlobalIndex = 0, Coord_Derivative = [5, 7], Coord_Input = [True, True],
          SharpEdge_Distance = 1, Flip_Orientation = True, Domain = True \<rparr>] \<rparr>"

definition ex_direct :: CSolver where
  "ex_direct =
     \<lparr> direct_nVar = 2,
       direct_node =
         [\<lparr> Solution_d = [1, 2], AdjointSolution = [10, 20],
            AdjointSolution_time_n = [30, 40], AdjointSolution_time_n1 = [50, 60] \<rparr>,
          \<lparr> Solution_d = [3, 4], AdjointSolution = [11, 21],
            AdjointSolution_time_n = [31, 41], AdjointSolution_time_n1 = [51, 61] \<rparr>],
       scalar = (\<lambda>a. if a = GetTotal_CDrag then 7 else 8),
       Temperature_Inf = 0, Pressure_Inf = 0 \<rparr>"

definition ex_solver :: CDiscAdjSolver where
  "ex_solver =
     \<lparr> nVar = 2, nDim = 2, nMarker = 2, nPoint = 2, nPointDomain = 2,
       KindDirect_Solver = RUNTIME_FLOW_SYS,
       node =
         [\<lparr> Solution = [0, 0], Solution_Old = [0, 0], Solution_time_n = [0, 0],
            Solution_time_n1 = [0, 0], Solution_Direct = [1, 2], Sensitivity = [3, 4] \<rparr>,
          \<lparr> Solution = [0, 0], Solution_Old = [0, 0], Solution_time_n = [0, 0],
            Solution_time_n1 = [0, 0], Solution_Direct = [3, 4], Sensitivity = [5, 4] \<rparr>],
       Solution_buf = [0, 0],
       CSensitivity = [[0, 0], [9]],
       Sens_Geo = [0, 0],
       Total_Sens_Geo = 0,
       ObjFunc_Value = 5,
       ObjFunc_Derivative = 0,
       Mach = 0, Alpha = 0, Beta = 0, Pressure = 0, Temperature = 0 \<rparr>"

definition ex_tape :: AD_tape where
  "ex_tape = \<lparr> tape_inputs = [], tape_outputs = [] \<rparr>"

text \<open>
  A restart file for it: a header and two lines of index, two coordinates and two
  solution values. The index column runs against the position of the lines.
\<close>

definition ex_file :: "restart_line list" where
  "ex_file =
     [\<lparr> index_col = None, columns = [] \<rparr>,
      \<lparr> index_col = Some 1,
        columns = [Extracted 0, Extracted 0, Extracted 100, Extracted 200] \<rparr>,
      \<lparr> index_col = Some 0,
        columns = [Extracted 1, Extracted 0, Extracted 300, Extracted 400] \<rparr>]"

section \<open>Properties\<close>

subsection \<open>Seeding the objective\<close>

lemma seed_value:
  "ObjFunc_Derivative (SetAdj_ObjFunc (mpi_context r) s) = (if r = MASTER_NODE then 1 else 0)"
  by (simp add: SetAdj_ObjFunc_def get_rank_def mpi_context_def)

lemma seed_serial: "ObjFunc_Derivative (SetAdj_ObjFunc serial_context s) = 1"
  by (simp add: SetAdj_ObjFunc_def get_rank_def serial_context_def)

text \<open>
  Claim C1. In a run on \<open>nranks\<close> processes, whatever the solver object of each,
  \<^verbatim>\<open>SetAdj_ObjFunc\<close> sets the adjoint seed of the objective to 1 on the master rank and to
  0 on every other rank, so the seeds of all the ranks add up to exactly 1; a build
  without MPI seeds its single process with 1.
\<close>

theorem SetAdj_ObjFunc_seed_sum:
  assumes "0 < nranks"
  shows "(\<Sum>r<nranks. ObjFunc_Derivative (SetAdj_ObjFunc (mpi_context r) (solver r))) = 1
       \<and> (\<forall>r<nranks. ObjFunc_Derivative (SetAdj_ObjFunc (mpi_context r) (solver r))
              = (if r = MASTER_NODE then 1 else 0))
       \<and> ObjFunc_Derivative (SetAdj_ObjFunc serial_context s) = 1"
proof -
  have "(\<Sum>r<nranks. ObjFunc_Derivative (SetAdj_ObjFunc (mpi_context r) (solver r)))
        = (\<Sum>r\<in>{..<nranks}. if r = MASTER_NODE then 1 else 0)"
    by (simp add: seed_value)
  also have "\<dots> = 1"
    using assms by (simp add: MASTER_NODE_def)
  finally show ?thesis
    by (simp add: seed_value seed_serial)
qed

theorem SetAdj_ObjFunc_seed_sum_witness:
  "(0::nat) < 3
   \<and> (\<Sum>r<(3::nat). ObjFunc_Derivative (SetAdj_ObjFunc (mpi_context r) ex_solver)) = 1
   \<and> ObjFunc_Derivative (SetAdj_ObjFunc (mpi_context 0) ex_solver) = 1
   \<and> ObjFunc_Derivative (SetAdj_ObjFunc (mpi_context 2) ex_solver) = 0"
proof -
  have h: "(0::nat) < 3" by simp
  from SetAdj_ObjFunc_seed_sum [OF h, of "\<lambda>r. ex_solver" ex_solver]
  have s: "(\<Sum>r<(3::nat). ObjFunc_Derivative (SetAdj_ObjFunc (mpi_context r) ex_solver)) = 1"
    and a: "\<forall>r<(3::nat). ObjFunc_Derivative (SetAdj_ObjFunc (mpi_context r) ex_solver)
              = (if r = MASTER_NODE then 1 else 0)"
    by blast+
  from a have "ObjFunc_Derivative (SetAdj_ObjFunc (mpi_context 0) ex_solver) = 1"
    by (simp add: MASTER_NODE_def)
  moreover from a have "ObjFunc_Derivative (SetAdj_ObjFunc (mpi_context 2) ex_solver) = 0"
    by (simp add: MASTER_NODE_def)
  ultimately show ?thesis using h s by blast
qed

subsection \<open>The constructor on the small run\<close>

lemma upt_0_2: "[0..<2] = [0, Suc 0]"
  by (simp add: numeral_2_eq_2)

lemma replicate_2: "replicate 2 x = [x, x]"
  by (simp add: numeral_2_eq_2)

lemma ex_ctor_value:
  "Restart config \<Longrightarrow>
   \<exists>s. CDiscAdjSolver_ctor ctx ex_geometry config ex_direct RUNTIME_FLOW_SYS MESH_0 filename
         (Some ex_file) raw = Inr s
       \<and> node s = [\<lparr> Solution = [300, 400], Solution_Old = [0, 0], Solution_time_n = [0, 0],
                      Solution_time_n1 = [0, 0], Solution_Direct = [1, 2], Sensitivity = [0, 0] \<rparr>,
                    \<lparr> Solution = [100, 200], Solution_Old = [0, 0], Solution_time_n = [0, 0],
                      Solution_time_n1 = [0, 0], Solution_Direct = [3, 4], Sensitivity = [0, 0] \<rparr>]"
  by (simp add: CDiscAdjSolver_ctor_def load_restart_def build_Global2Local_def
      fill_Global2Local_def read_restart_line_def read_Solution_def index_extracts_def
      ULONG_MAX_def restart_skipVars_def store_direct_def new_CDiscAdjVariable_def copy_n_def
      ex_geometry_def ex_direct_def ex_file_def MESH_0_def upt_0_2 replicate_2 Let_def)

subsection \<open>Registering the objective\<close>

lemma recognized_accessor:
  "(\<forall>k. sel \<noteq> OTHER_OBJECTIVE k) \<Longrightarrow> \<exists>a. objective_accessor sel = Some a"
  by (cases sel) simp_all

text \<open>
  Claim C2, as stated, fails: on rank 1 of an MPI run, which is not the master rank, the
  drag selector makes \<^verbatim>\<open>RegisterObj_Func\<close> call \<^verbatim>\<open>GetTotal_CDrag\<close>.
\<close>

theorem RegisterObj_Func_nonmaster_counterexample:
  "get_rank (mpi_context 1) \<noteq> MASTER_NODE
   \<and> fst (RegisterObj_Func (mpi_context 1) ex_config ex_direct ex_solver ex_tape)
       = [GetTotal_CDrag]"
  by (simp add: RegisterObj_Func_def get_rank_def mpi_context_def MASTER_NODE_def ex_config_def
      Let_def)

text \<open>
  Claim C2, amended. For a recognized selector, one call of \<^verbatim>\<open>RegisterObj_Func\<close> invokes
  exactly one accessor of the primal solver, the one the selector names, and stores its
  value as the objective; it does so on every rank. What is restricted to the master
  rank is the registration of the objective as an output of the tape.
\<close>

theorem RegisterObj_Func_every_rank:
  assumes "\<forall>k. Kind_ObjFunc config \<noteq> OTHER_OBJECTIVE k"
  shows "\<exists>a. objective_accessor (Kind_ObjFunc config) = Some a
           \<and> fst (RegisterObj_Func ctx config direct_solver solver tape) = [a]
           \<and> ObjFunc_Value (fst (snd (RegisterObj_Func ctx config direct_solver solver tape)))
               = scalar direct_solver a
           \<and> tape_outputs (snd (snd (RegisterObj_Func ctx config direct_solver solver tape)))
               = (if get_rank ctx = MASTER_NODE
                  then tape_outputs tape @ [AD_ObjFunc_Value] else tape_outputs tape)"
proof -
  from assms obtain a where a: "objective_accessor (Kind_ObjFunc config) = Some a"
    using recognized_accessor by blast
  then show ?thesis
    by (simp add: RegisterObj_Func_def Let_def)
qed

theorem RegisterObj_Func_every_rank_witness:
  "(\<forall>k. Kind_ObjFunc ex_config \<noteq> OTHER_OBJECTIVE k)
   \<and> fst (RegisterObj_Func (mpi_context 1) ex_config ex_direct ex_solver ex_tape) = [GetTotal_CDrag]
   \<and> tape_outputs (snd (snd (RegisterObj_Func (mpi_context 1) ex_config ex_direct ex_solver ex_tape)))
       = []
   \<and> tape_outputs (snd (snd (RegisterObj_Func (mpi_context 0) ex_config ex_direct ex_solver ex_tape)))
       = [AD_ObjFunc_Value]"
proof -
  have h: "\<forall>k. Kind_ObjFunc ex_config \<noteq> OTHER_OBJECTIVE k"
    by (simp add: ex_config_def)
  have acc: "objective_accessor (Kind_ObjFunc ex_config) = Some GetTotal_CDrag"
    by (simp add: ex_config_def)
  from RegisterObj_Func_every_rank [OF h, of "mpi_context 1" ex_direct ex_solver ex_tape] acc
  have 1: "fst (RegisterObj_Func (mpi_context 1) ex_config ex_direct ex_solver ex_tape) = [GetTotal_CDrag]"
    and 2: "tape_outputs (snd (snd (RegisterObj_Func (mpi_context 1) ex_config ex_direct ex_solver ex_tape))) = []"
    by (auto simp: get_rank_def mpi_context_def MASTER_NODE_def ex_tape_def)
  from RegisterObj_Func_every_rank [OF h, of "mpi_context 0" ex_direct ex_solver ex_tape]
  have 3: "tape_outputs (snd (snd (RegisterObj_Func (mpi_context 0) ex_config ex_direct ex_solver ex_tape)))
       = [AD_ObjFunc_Value]"
    by (auto simp: get_rank_def mpi_context_def MASTER_NODE_def ex_tape_def)
  show ?thesis using h 1 2 3 by blast
qed

text \<open>
  Claim C3, as stated, fails: with a selector outside the recognized set the constructor
  (the setup) returns a solver object and reports nothing, and \<^verbatim>\<open>RegisterObj_Func\<close> later
  calls no accessor, leaves the objective value as it was and still registers it as an
  output of the tape on the master rank.
\<close>

theorem unrecognized_selector_counterexample:
  "objective_accessor (OTHER_OBJECTIVE 0) = None
   \<and> \<not> isl (CDiscAdjSolver_ctor serial_context ex_geometry
             (ex_config\<lparr>Kind_ObjFunc := OTHER_OBJECTIVE 0\<rparr>) ex_direct RUNTIME_FLOW_SYS MESH_0
             ''restart_adj.dat'' (Some ex_file) ex_solver)
   \<and> RegisterObj_Func serial_context (ex_config\<lparr>Kind_ObjFunc := OTHER_OBJECTIVE 0\<rparr>)
        ex_direct ex_solver ex_tape
      = ([], ex_solver, ex_tape\<lparr>tape_outputs := [AD_ObjFunc_Value]\<rparr>)"
proof -
  have r: "Restart (ex_config\<lparr>Kind_ObjFunc := OTHER_OBJECTIVE 0\<rparr>)"
    by (simp add: ex_config_def)
  from ex_ctor_value [OF r, of serial_context "''restart_adj.dat''" ex_solver]
  have "\<not> isl (CDiscAdjSolver_ctor serial_context ex_geometry
             (ex_config\<lparr>Kind_ObjFunc := OTHER_OBJECTIVE 0\<rparr>) ex_direct RUNTIME_FLOW_SYS MESH_0
             ''restart_adj.dat'' (Some ex_file) ex_solver)"
    by auto
  then show ?thesis
    by (simp add: RegisterObj_Func_def get_rank_def serial_context_def ex_tape_def Let_def)
qed

text \<open>
  Claim C3, amended. For a selector outside the recognized set, \<^verbatim>\<open>RegisterObj_Func\<close>
  detects and reports nothing: on every rank it returns normally, having called no
  accessor and left the solver object, hence the objective value, unchanged; on the
  master rank it registers that unchanged value as an output of the tape.
\<close>

theorem unrecognized_selector_silent:
  "RegisterObj_Func ctx (config\<lparr>Kind_ObjFunc := OTHER_OBJECTIVE k\<rparr>) direct_solver solver tape
   = ([], solver,
      if get_rank ctx = MASTER_NODE
      then tape\<lparr>tape_outputs := tape_outputs tape @ [AD_ObjFunc_Value]\<rparr> else tape)"
  by (simp add: RegisterObj_Func_def Let_def)

theorem unrecognized_selector_silent_witness:
  "RegisterObj_Func (mpi_context 1) (ex_config\<lparr>Kind_ObjFunc := OTHER_OBJECTIVE 7\<rparr>)
     ex_direct ex_solver ex_tape
   = ([], ex_solver, ex_tape)
   \<and> RegisterObj_Func (mpi_context 0) (ex_config\<lparr>Kind_ObjFunc := OTHER_OBJECTIVE 7\<rparr>)
       ex_direct ex_solver ex_tape
     = ([], ex_solver, ex_tape\<lparr>tape_outputs := [AD_ObjFunc_Value]\<rparr>)"
proof -
  have r: "get_rank (mpi_context 1) \<noteq> MASTER_NODE" "get_rank (mpi_context 0) = MASTER_NODE"
    by (simp_all add: get_rank_def mpi_context_def MASTER_NODE_def)
  from unrecognized_selector_silent [where ctx = "mpi_context 1" and config = ex_config and k = 7
      and direct_solver = ex_direct and solver = ex_solver and tape = ex_tape] r
  have 1: "RegisterObj_Func (mpi_context 1) (ex_config\<lparr>Kind_ObjFunc := OTHER_OBJECTIVE 7\<rparr>)
        ex_direct ex_solver ex_tape = ([], ex_solver, ex_tape)"
    by simp
  from unrecognized_selector_silent [where ctx = "mpi_context 0" and config = ex_config and k = 7
      and direct_solver = ex_direct and solver = ex_solver and tape = ex_tape] r
  have 2: "RegisterObj_Func (mpi_context 0) (ex_config\<lparr>Kind_ObjFunc := OTHER_OBJECTIVE 7\<rparr>)
        ex_direct ex_solver ex_tape = ([], ex_solver, ex_tape\<lparr>tape_outputs := [AD_ObjFunc_Value]\<rparr>)"
    by (simp add: ex_tape_def)
  show ?thesis using 1 2 by blast
qed

subsection \<open>A missing restart file\<close>

text \<open>
  Claim C4. The code at a run of two ranks where the restart file opens on rank 1 and
  not on rank 0: the constructor of rank 0 ends in \<^verbatim>\<open>exit(EXIT_FAILURE)\<close> after printing
  its message, the constructor of rank 1 returns a solver object. The outcome of a
  process depends on its own file alone; no flag is exchanged.
\<close>

theorem restart_missing_exit_alone:
  "map isl (construct_all
     [(mpi_context 0, ex_geometry, ex_config, ex_direct, RUNTIME_FLOW_SYS, MESH_0,
       ''restart_adj.dat'', None, ex_solver),
      (mpi_context 1, ex_geometry, ex_config, ex_direct, RUNTIME_FLOW_SYS, MESH_0,
       ''restart_adj.dat'', Some ex_file, ex_solver)])
   = [True, False]
  \<and> CDiscAdjSolver_ctor (mpi_context 0) ex_geometry ex_config ex_direct RUNTIME_FLOW_SYS MESH_0
       ''restart_adj.dat'' None ex_solver
     = Inl (EXIT_FAILURE [''There is no adjoint restart file!! restart_adj.dat.''])"
proof -
  have r: "Restart ex_config" by (simp add: ex_config_def)
  from ex_ctor_value [OF r, of "mpi_context 1" "''restart_adj.dat''" ex_solver]
  have 1: "\<not> isl (CDiscAdjSolver_ctor (mpi_context 1) ex_geometry ex_config ex_direct
             RUNTIME_FLOW_SYS MESH_0 ''restart_adj.dat'' (Some ex_file) ex_solver)"
    by auto
  have 0: "CDiscAdjSolver_ctor (mpi_context 0) ex_geometry ex_config ex_direct RUNTIME_FLOW_SYS MESH_0
       ''restart_adj.dat'' None ex_solver
     = Inl (EXIT_FAILURE [''There is no adjoint restart file!! restart_adj.dat.''])"
    using r by (simp add: CDiscAdjSolver_ctor_def get_rank_def mpi_context_def MASTER_NODE_def Let_def)
  show ?thesis using 0 1 by (simp add: construct_all_def)
qed

theorem restart_missing_exit_alone_witness:
  "Restart ex_config
   \<and> isl (CDiscAdjSolver_ctor (mpi_context 0) ex_geometry ex_config ex_direct RUNTIME_FLOW_SYS
            MESH_0 ''restart_adj.dat'' None ex_solver)
   \<and> map isl (construct_all
        [(mpi_context 0, ex_geometry, ex_config, ex_direct, RUNTIME_FLOW_SYS, MESH_0,
          ''restart_adj.dat'', None, ex_solver),
         (mpi_context 1, ex_geometry, ex_config, ex_direct, RUNTIME_FLOW_SYS, MESH_0,
          ''restart_adj.dat'', Some ex_file, ex_solver)])
      = [True, False]"
  using restart_missing_exit_alone by (simp add: ex_config_def)

subsection \<open>The free-stream velocity\<close>

lemma PI_NUMBER_pi: "PI_NUMBER = pi"
  by (simp add: PI_NUMBER_def arctan_one)

lemma update2_nth:
  "2 \<le> length xs \<Longrightarrow> (xs[0 := a])[1 := b] ! 0 = a \<and> (xs[0 := a])[1 := b] ! 1 = b"
  by (cases xs; cases "tl xs") auto

lemma update3_nth:
  "3 \<le> length xs \<Longrightarrow>
     ((xs[0 := a])[1 := b])[2 := c] ! 0 = a \<and> ((xs[0 := a])[1 := b])[2 := c] ! 1 = b
     \<and> ((xs[0 := a])[1 := b])[2 := c] ! 2 = c"
  by (cases xs; cases "tl xs"; cases "tl (tl xs)") auto

text \<open>
  Claim C6. For the compressible flow system, with \<open>\<alpha>\<close> and \<open>\<beta>\<close> the angle of attack
  and the sideslip angle in radians, \<open>M\<close> the Mach number, \<open>c\<close> the sound speed the
  routine derives from the first velocity component, and \<open>Vref\<close> the reference velocity,
  where none of the divisors is zero (\<open>M\<close>, \<open>cos \<alpha>\<close>, in three dimensions \<open>cos \<beta>\<close>, and
  \<open>Vref\<close>),
  \<^verbatim>\<open>RegisterVariables\<close> (with or without registration of the inputs) stores
  \<open>u = cos \<alpha> M c / Vref\<close>, \<open>v = sin \<alpha> M c / Vref\<close> in two dimensions and
  \<open>u = cos \<alpha> cos \<beta> M c / Vref\<close>, \<open>v = sin \<beta> M c / Vref\<close>,
  \<open>w = sin \<alpha> cos \<beta> M c / Vref\<close> in three.
\<close>

theorem RegisterVariables_velocity:
  assumes "Kind_Regime config = COMPRESSIBLE"
    and "KindDirect_Solver solver = RUNTIME_FLOW_SYS"
    and "nDim solver \<le> length (Velocity_FreeStreamND config)"
    and "Velocity_Ref config \<noteq> 0"
    and "Mach_cfg config \<noteq> 0"
    and "cos (AoA config * pi / 180) \<noteq> 0"
    and "nDim solver = 3 \<longrightarrow> cos (AoS config * pi / 180) \<noteq> 0"
  shows "let V = Velocity_FreeStreamND config;
             V' = Velocity_FreeStreamND (fst (RegisterVariables config reset direct_solver solver tape));
             \<alpha> = AoA config * pi / 180;
             \<beta> = AoS config * pi / 180;
             M = Mach_cfg config;
             c = freestream_SoundSpeed (nDim solver) config;
             Vref = Velocity_Ref config
         in (nDim solver = 2 \<longrightarrow>
               c = V ! 0 * Vref / (cos \<alpha> * M)
               \<and> V' ! 0 = cos \<alpha> * M * c / Vref
               \<and> V' ! 1 = sin \<alpha> * M * c / Vref)
          \<and> (nDim solver = 3 \<longrightarrow>
               c = V ! 0 * Vref / (cos \<alpha> * cos \<beta> * M)
               \<and> V' ! 0 = cos \<alpha> * cos \<beta> * M * c / Vref
               \<and> V' ! 1 = sin \<beta> * M * c / Vref
               \<and> V' ! 2 = sin \<alpha> * cos \<beta> * M * c / Vref)"
proof -
  let ?V = "Velocity_FreeStreamND config"
  let ?V' = "Velocity_FreeStreamND (fst (RegisterVariables config reset direct_solver solver tape))"
  let ?a = "AoA config * pi / 180"
  let ?b = "AoS config * pi / 180"
  let ?M = "Mach_cfg config"
  let ?c = "freestream_SoundSpeed (nDim solver) config"
  let ?R = "Velocity_Ref config"
  have two: "?V' = (?V[0 := cos ?a * ?M * ?c / ?R])[1 := sin ?a * ?M * ?c / ?R]"
    if "nDim solver = 2"
    using assms(1,2) that by (simp add: RegisterVariables_def Let_def PI_NUMBER_pi)
  have three: "?V' = ((?V[0 := cos ?a * cos ?b * ?M * ?c / ?R])[1 := sin ?b * ?M * ?c / ?R])
                        [2 := sin ?a * cos ?b * ?M * ?c / ?R]"
    if "nDim solver = 3"
    using assms(1,2) that by (simp add: RegisterVariables_def Let_def PI_NUMBER_pi)
  have c2: "?c = ?V ! 0 * ?R / (cos ?a * ?M)" if "nDim solver = 2"
    using that by (simp add: freestream_SoundSpeed_def Let_def PI_NUMBER_pi)
  have c3: "?c = ?V ! 0 * ?R / (cos ?a * cos ?b * ?M)" if "nDim solver = 3"
    using that by (simp add: freestream_SoundSpeed_def Let_def PI_NUMBER_pi)
  have v2: "?V' ! 0 = cos ?a * ?M * ?c / ?R \<and> ?V' ! 1 = sin ?a * ?M * ?c / ?R"
    if d: "nDim solver = 2"
  proof -
    from assms(3) d have "2 \<le> length ?V" by simp
    then show ?thesis by (simp only: two [OF d] update2_nth)
  qed
  have v3: "?V' ! 0 = cos ?a * cos ?b * ?M * ?c / ?R \<and> ?V' ! 1 = sin ?b * ?M * ?c / ?R
            \<and> ?V' ! 2 = sin ?a * cos ?b * ?M * ?c / ?R"
    if d: "nDim solver = 3"
  proof -
    from assms(3) d have "3 \<le> length ?V" by simp
    then show ?thesis by (simp only: three [OF d] update3_nth)
  qed
  show ?thesis
    unfolding Let_def using c2 c3 v2 v3 by blast
qed

theorem RegisterVariables_velocity_witness:
  "Kind_Regime ex_config = COMPRESSIBLE
   \<and> KindDirect_Solver ex_solver = RUNTIME_FLOW_SYS
   \<and> nDim ex_solver \<le> length (Velocity_FreeStreamND ex_config)
   \<and> Velocity_Ref ex_config \<noteq> 0
   \<and> Mach_cfg ex_config \<noteq> 0
   \<and> cos (AoA ex_config * pi / 180) \<noteq> 0
   \<and> cos (AoS ex_config * pi / 180) \<noteq> 0
   \<and> nDim ex_solver = 2
   \<and> Velocity_FreeStreamND ex_config = [3, 5, 0]
   \<and> freestream_SoundSpeed 2 ex_config = 3 / 2
   \<and> Velocity_FreeStreamND (fst (RegisterVariables ex_config True ex_direct ex_solver ex_tape)) ! 0 = 3
   \<and> Velocity_FreeStreamND (fst (RegisterVariables ex_config True ex_direct ex_solver ex_tape)) ! 1 = 0
   \<and> freestream_SoundSpeed 3 ex_config = 3 / 2
   \<and> Velocity_FreeStreamND (fst (RegisterVariables ex_config True ex_direct
         (ex_solver\<lparr>nDim := 3\<rparr>) ex_tape)) ! 0 = 3
   \<and> Velocity_FreeStreamND (fst (RegisterVariables ex_config True ex_direct
         (ex_solver\<lparr>nDim := 3\<rparr>) ex_tape)) ! 1 = 0
   \<and> Velocity_FreeStreamND (fst (RegisterVariables ex_config True ex_direct
         (ex_solver\<lparr>nDim := 3\<rparr>) ex_tape)) ! 2 = 0"
proof -
  have h1: "Kind_Regime ex_config = COMPRESSIBLE" by (simp add: ex_config_def)
  have h2: "KindDirect_Solver ex_solver = RUNTIME_FLOW_SYS" by (simp add: ex_solver_def)
  have h3: "nDim ex_solver \<le> length (Velocity_FreeStreamND ex_config)"
    by (simp add: ex_solver_def ex_config_def)
  have h4: "Velocity_Ref ex_config \<noteq> 0" by (simp add: ex_config_def)
  have h5: "Mach_cfg ex_config \<noteq> 0" by (simp add: ex_config_def)
  have h6: "cos (AoA ex_config * pi / 180) \<noteq> 0" by (simp add: ex_config_def)
  have b: "cos (AoS ex_config * pi / 180) \<noteq> 0" by (simp add: ex_config_def)
  have h7: "nDim ex_solver = 3 \<longrightarrow> cos (AoS ex_config * pi / 180) \<noteq> 0"
    using b by simp
  have d: "nDim ex_solver = 2" by (simp add: ex_solver_def)
  have v: "Velocity_FreeStreamND ex_config = [3, 5, 0]" by (simp add: ex_config_def)
  have p: "AoA ex_config = 0" "AoS ex_config = 0" "Mach_cfg ex_config = 2" "Velocity_Ref ex_config = 1"
    by (simp_all add: ex_config_def)
  from RegisterVariables_velocity [OF h1 h2 h3 h4 h5 h6 h7, of True ex_direct ex_tape]
  have two: "freestream_SoundSpeed 2 ex_config = 3 / 2
    \<and> Velocity_FreeStreamND (fst (RegisterVariables ex_config True ex_direct ex_solver ex_tape)) ! 0 = 3
    \<and> Velocity_FreeStreamND (fst (RegisterVariables ex_config True ex_direct ex_solver ex_tape)) ! 1 = 0"
    by (simp add: Let_def d v p)
  have g2: "KindDirect_Solver (ex_solver\<lparr>nDim := 3\<rparr>) = RUNTIME_FLOW_SYS"
    by (simp add: ex_solver_def)
  have g3: "nDim (ex_solver\<lparr>nDim := 3\<rparr>) \<le> length (Velocity_FreeStreamND ex_config)"
    by (simp add: ex_config_def)
  have g7: "nDim (ex_solver\<lparr>nDim := 3\<rparr>) = 3 \<longrightarrow> cos (AoS ex_config * pi / 180) \<noteq> 0"
    using b by simp
  from RegisterVariables_velocity [OF h1 g2 g3 h4 h5 h6 g7, of True ex_direct ex_tape]
  have three: "freestream_SoundSpeed 3 ex_config = 3 / 2
    \<and> Velocity_FreeStreamND (fst (RegisterVariables ex_config True ex_direct
         (ex_solver\<lparr>nDim := 3\<rparr>) ex_tape)) ! 0 = 3
    \<and> Velocity_FreeStreamND (fst (RegisterVariables ex_config True ex_direct
         (ex_solver\<lparr>nDim := 3\<rparr>) ex_tape)) ! 1 = 0
    \<and> Velocity_FreeStreamND (fst (RegisterVariables ex_config True ex_direct
         (ex_solver\<lparr>nDim := 3\<rparr>) ex_tape)) ! 2 = 0"
    by (simp add: Let_def v p)
  show ?thesis using h1 h2 h3 h4 h5 h6 b d v two three by blast
qed

subsection \<open>Extracting the adjoint solution\<close>

lemma fold_pointwise:
  assumes "\<And>i b xs. i < n \<Longrightarrow> \<exists>b'. body i (b, xs) = (b', xs[i := h i (xs ! i)])"
  shows "snd (fold body [0..<n] (b, xs))
         = map (\<lambda>i. if i < n then h i (xs ! i) else xs ! i) [0..<length xs]"
  using assms
proof (induction n)
  case 0
  show ?case by (simp add: map_nth)
next
  case (Suc n)
  have IH: "snd (fold body [0..<n] (b, xs))
            = map (\<lambda>i. if i < n then h i (xs ! i) else xs ! i) [0..<length xs]"
    using Suc by simp
  obtain b1 xs1 where f: "fold body [0..<n] (b, xs) = (b1, xs1)"
    by (cases "fold body [0..<n] (b, xs)")
  with IH have xs1: "xs1 = map (\<lambda>i. if i < n then h i (xs ! i) else xs ! i) [0..<length xs]"
    by simp
  from Suc.prems [of n b1 xs1] obtain b' where
    st: "body n (b1, xs1) = (b', xs1[n := h n (xs1 ! n)])"
    by auto
  have "snd (fold body [0..<Suc n] (b, xs)) = xs1[n := h n (xs1 ! n)]"
    by (simp add: f st)
  also have "\<dots> = map (\<lambda>i. if i < Suc n then h i (xs ! i) else xs ! i) [0..<length xs]"
    by (rule nth_equalityI) (auto simp: xs1 nth_list_update less_Suc_eq)
  finally show ?case .
qed

lemma copy_n_nth: "iVar < n \<Longrightarrow> n \<le> length src \<Longrightarrow> copy_n n src dst ! iVar = src ! iVar"
  by (simp add: copy_n_def nth_append)

lemma copy_n_twice: "n \<le> length src \<Longrightarrow> copy_n n (copy_n n src buf) dst = copy_n n src dst"
  by (simp add: copy_n_def)

lemma extract_point_step:
  assumes "nvar \<le> length (AdjointSolution (direct_node ds ! i))"
  shows "\<exists>b'. extract_point nvar ds i (b, xs)
           = (b', xs[i := (xs ! i)\<lparr>Solution_Old := copy_n nvar (Solution (xs ! i)) (Solution_Old (xs ! i)),
                 Solution := copy_n nvar (AdjointSolution (direct_node ds ! i)) (Solution (xs ! i))\<rparr>])"
  using assms by (simp add: extract_point_def Let_def copy_n_twice)

lemma extract_point_time_n_step:
  assumes "nvar \<le> length (AdjointSolution_time_n (direct_node ds ! i))"
  shows "\<exists>b'. extract_point_time_n nvar ds i (b, xs)
           = (b', xs[i := (xs ! i)\<lparr>Solution_time_n :=
                 copy_n nvar (AdjointSolution_time_n (direct_node ds ! i)) (Solution_time_n (xs ! i))\<rparr>])"
  using assms by (simp add: extract_point_time_n_def Let_def copy_n_twice)

lemma extract_point_time_n1_step:
  assumes "nvar \<le> length (AdjointSolution_time_n1 (direct_node ds ! i))"
  shows "\<exists>b'. extract_point_time_n1 nvar ds i (b, xs)
           = (b', xs[i := (xs ! i)\<lparr>Solution_time_n1 :=
                 copy_n nvar (AdjointSolution_time_n1 (direct_node ds ! i)) (Solution_time_n1 (xs ! i))\<rparr>])"
  using assms by (simp add: extract_point_time_n1_def Let_def copy_n_twice)

lemma extract_loop:
  assumes "\<forall>i<n. nvar \<le> length (AdjointSolution (direct_node ds ! i))"
  shows "snd (fold (extract_point nvar ds) [0..<n] st)
         = map (\<lambda>i. if i < n
                  then (snd st ! i)\<lparr>Solution_Old := copy_n nvar (Solution (snd st ! i)) (Solution_Old (snd st ! i)),
                         Solution := copy_n nvar (AdjointSolution (direct_node ds ! i)) (Solution (snd st ! i))\<rparr>
                  else snd st ! i) [0..<length (snd st)]"
  by (cases st, simp only: snd_conv, rule fold_pointwise
      [where h = "\<lambda>i v. v\<lparr>Solution_Old := copy_n nvar (Solution v) (Solution_Old v),
                       Solution := copy_n nvar (AdjointSolution (direct_node ds ! i)) (Solution v)\<rparr>"])
    (use assms extract_point_step in blast)

lemma extract_time_n_loop:
  assumes "\<forall>i<n. nvar \<le> length (AdjointSolution_time_n (direct_node ds ! i))"
  shows "snd (fold (extract_point_time_n nvar ds) [0..<n] st)
         = map (\<lambda>i. if i < n
                  then (snd st ! i)\<lparr>Solution_time_n :=
                     copy_n nvar (AdjointSolution_time_n (direct_node ds ! i)) (Solution_time_n (snd st ! i))\<rparr>
                  else snd st ! i) [0..<length (snd st)]"
  by (cases st, simp only: snd_conv, rule fold_pointwise
      [where h = "\<lambda>i v. v\<lparr>Solution_time_n :=
                     copy_n nvar (AdjointSolution_time_n (direct_node ds ! i)) (Solution_time_n v)\<rparr>"])
    (use assms extract_point_time_n_step in blast)

lemma extract_time_n1_loop:
  assumes "\<forall>i<n. nvar \<le> length (AdjointSolution_time_n1 (direct_node ds ! i))"
  shows "snd (fold (extract_point_time_n1 nvar ds) [0..<n] st)
         = map (\<lambda>i. if i < n
                  then (snd st ! i)\<lparr>Solution_time_n1 :=
                     copy_n nvar (AdjointSolution_time_n1 (direct_node ds ! i)) (Solution_time_n1 (snd st ! i))\<rparr>
                  else snd st ! i) [0..<length (snd st)]"
  by (cases st, simp only: snd_conv, rule fold_pointwise
      [where h = "\<lambda>i v. v\<lparr>Solution_time_n1 :=
                     copy_n nvar (AdjointSolution_time_n1 (direct_node ds ! i)) (Solution_time_n1 v)\<rparr>"])
    (use assms extract_point_time_n1_step in blast)


lemma extract_loops_node:
  assumes np: "nPoint solver \<le> length (node solver)"
    and len: "\<forall>i<nPoint solver.
                nVar solver \<le> length (AdjointSolution (direct_node ds ! i))
                \<and> nVar solver \<le> length (AdjointSolution_time_n (direct_node ds ! i))
                \<and> nVar solver \<le> length (AdjointSolution_time_n1 (direct_node ds ! i))"
    and i: "i < nPoint solver"
  shows "node (ExtractAdjoint_Solution config ds solver) ! i
         = (let v = node solver ! i;
                d = direct_node ds ! i;
                v1 = v\<lparr>Solution_Old := copy_n (nVar solver) (Solution v) (Solution_Old v),
                       Solution := copy_n (nVar solver) (AdjointSolution d) (Solution v)\<rparr>;
                v2 = (if Unsteady_Simulation config = DT_STEPPING_1ST
                         \<or> Unsteady_Simulation config = DT_STEPPING_2ND
                      then v1\<lparr>Solution_time_n :=
                             copy_n (nVar solver) (AdjointSolution_time_n d) (Solution_time_n v1)\<rparr>
                      else v1)
            in if Unsteady_Simulation config = DT_STEPPING_2ND
               then v2\<lparr>Solution_time_n1 :=
                      copy_n (nVar solver) (AdjointSolution_time_n1 d) (Solution_time_n1 v2)\<rparr>
               else v2)"
proof -
  let ?n = "nPoint solver"
  let ?nv = "nVar solver"
  define st1 where "st1 = fold (extract_point ?nv ds) [0..<?n] (Solution_buf solver, node solver)"
  define st2 where "st2 = fold (extract_point_time_n ?nv ds) [0..<?n] st1"
  define st2' where "st2' = (if Unsteady_Simulation config = DT_STEPPING_1ST
                               \<or> Unsteady_Simulation config = DT_STEPPING_2ND then st2 else st1)"
  define st3 where "st3 = fold (extract_point_time_n1 ?nv ds) [0..<?n] st2'"
  have il: "i < length (node solver)" using i np by simp
  have l1: "\<forall>i<?n. ?nv \<le> length (AdjointSolution (direct_node ds ! i))"
    and l2: "\<forall>i<?n. ?nv \<le> length (AdjointSolution_time_n (direct_node ds ! i))"
    and l3: "\<forall>i<?n. ?nv \<le> length (AdjointSolution_time_n1 (direct_node ds ! i))"
    using len by blast+
  have s1: "snd st1 ! i = (node solver ! i)
              \<lparr>Solution_Old := copy_n ?nv (Solution (node solver ! i)) (Solution_Old (node solver ! i)),
                Solution := copy_n ?nv (AdjointSolution (direct_node ds ! i)) (Solution (node solver ! i))\<rparr>"
    and n1: "length (snd st1) = length (node solver)"
    unfolding st1_def using il i by (simp_all add: extract_loop [OF l1])
  have s2: "snd st2 ! i = (snd st1 ! i)\<lparr>Solution_time_n :=
                   copy_n ?nv (AdjointSolution_time_n (direct_node ds ! i)) (Solution_time_n (snd st1 ! i))\<rparr>"
    and n2: "length (snd st2) = length (node solver)"
    unfolding st2_def using il i n1 by (simp_all add: extract_time_n_loop [OF l2])
  have n2': "length (snd st2') = length (node solver)"
    by (simp add: st2'_def n1 n2)
  have s3: "snd st3 ! i = (snd st2' ! i)\<lparr>Solution_time_n1 :=
                   copy_n ?nv (AdjointSolution_time_n1 (direct_node ds ! i)) (Solution_time_n1 (snd st2' ! i))\<rparr>"
    unfolding st3_def using il i n2' by (simp add: extract_time_n1_loop [OF l3])
  have res: "node (ExtractAdjoint_Solution config ds solver)
             = snd (if Unsteady_Simulation config = DT_STEPPING_2ND then st3 else st2')"
    by (simp add: ExtractAdjoint_Solution_def Let_def st1_def st2_def st2'_def st3_def)
  show ?thesis
    unfolding res Let_def
    by (simp add: s3 st2'_def s2 s1)
qed

text \<open>
  Claim C9. Where the vectors of the primal solver hold \<open>nVar\<close> adjoint values for each of
  the \<open>nPoint\<close> points, \<^verbatim>\<open>ExtractAdjoint_Solution\<close> copies them into the adjoint solution of
  every point; the adjoint at time level n is copied exactly when the unsteady scheme is
  first- or second-order dual time stepping, and the adjoint at time level n-1 exactly
  when it is second-order dual time stepping; otherwise those copies keep their values.
\<close>

theorem ExtractAdjoint_Solution_copies:
  assumes "nPoint solver \<le> length (node solver)"
    and "\<forall>i<nPoint solver.
           nVar solver \<le> length (AdjointSolution (direct_node ds ! i))
           \<and> nVar solver \<le> length (AdjointSolution_time_n (direct_node ds ! i))
           \<and> nVar solver \<le> length (AdjointSolution_time_n1 (direct_node ds ! i))"
  shows "\<forall>iPoint<nPoint solver. \<forall>iVar<nVar solver.
           Solution (node (ExtractAdjoint_Solution config ds solver) ! iPoint) ! iVar
             = AdjointSolution (direct_node ds ! iPoint) ! iVar
           \<and> Solution_time_n (node (ExtractAdjoint_Solution config ds solver) ! iPoint) ! iVar
             = (if Unsteady_Simulation config = DT_STEPPING_1ST
                   \<or> Unsteady_Simulation config = DT_STEPPING_2ND
                then AdjointSolution_time_n (direct_node ds ! iPoint) ! iVar
                else Solution_time_n (node solver ! iPoint) ! iVar)
           \<and> Solution_time_n1 (node (ExtractAdjoint_Solution config ds solver) ! iPoint) ! iVar
             = (if Unsteady_Simulation config = DT_STEPPING_2ND
                then AdjointSolution_time_n1 (direct_node ds ! iPoint) ! iVar
                else Solution_time_n1 (node solver ! iPoint) ! iVar)"
proof (intro allI impI)
  fix iPoint iVar
  assume p: "iPoint < nPoint solver" and v: "iVar < nVar solver"
  from assms(2) p have
    "nVar solver \<le> length (AdjointSolution (direct_node ds ! iPoint))"
    "nVar solver \<le> length (AdjointSolution_time_n (direct_node ds ! iPoint))"
    "nVar solver \<le> length (AdjointSolution_time_n1 (direct_node ds ! iPoint))"
    by blast+
  then show "Solution (node (ExtractAdjoint_Solution config ds solver) ! iPoint) ! iVar
             = AdjointSolution (direct_node ds ! iPoint) ! iVar
           \<and> Solution_time_n (node (ExtractAdjoint_Solution config ds solver) ! iPoint) ! iVar
             = (if Unsteady_Simulation config = DT_STEPPING_1ST
                   \<or> Unsteady_Simulation config = DT_STEPPING_2ND
                then AdjointSolution_time_n (direct_node ds ! iPoint) ! iVar
                else Solution_time_n (node solver ! iPoint) ! iVar)
           \<and> Solution_time_n1 (node (ExtractAdjoint_Solution config ds solver) ! iPoint) ! iVar
             = (if Unsteady_Simulation config = DT_STEPPING_2ND
                then AdjointSolution_time_n1 (direct_node ds ! iPoint) ! iVar
                else Solution_time_n1 (node solver ! iPoint) ! iVar)"
    using v by (simp add: extract_loops_node [OF assms p] Let_def copy_n_nth)
qed


theorem ExtractAdjoint_Solution_copies_witness:
  "nPoint ex_solver \<le> length (node ex_solver)
   \<and> Unsteady_Simulation ex_config = DT_STEPPING_2ND
   \<and> Solution (node (ExtractAdjoint_Solution ex_config ex_direct ex_solver) ! 1) ! 1 = 21
   \<and> Solution_time_n (node (ExtractAdjoint_Solution ex_config ex_direct ex_solver) ! 1) ! 1 = 41
   \<and> Solution_time_n1 (node (ExtractAdjoint_Solution ex_config ex_direct ex_solver) ! 1) ! 1 = 61"
proof -
  have h1: "nPoint ex_solver \<le> length (node ex_solver)"
    by (simp add: ex_solver_def)
  have h2: "\<forall>i<nPoint ex_solver.
           nVar ex_solver \<le> length (AdjointSolution (direct_node ex_direct ! i))
           \<and> nVar ex_solver \<le> length (AdjointSolution_time_n (direct_node ex_direct ! i))
           \<and> nVar ex_solver \<le> length (AdjointSolution_time_n1 (direct_node ex_direct ! i))"
    by (simp add: ex_solver_def ex_direct_def less_Suc_eq numeral_2_eq_2)
  have u: "Unsteady_Simulation ex_config = DT_STEPPING_2ND"
    by (simp add: ex_config_def)
  have p: "(1::nat) < nPoint ex_solver" "(1::nat) < nVar ex_solver"
    by (simp_all add: ex_solver_def)
  have d: "AdjointSolution (direct_node ex_direct ! 1) ! 1 = 21"
    "AdjointSolution_time_n (direct_node ex_direct ! 1) ! 1 = 41"
    "AdjointSolution_time_n1 (direct_node ex_direct ! 1) ! 1 = 61"
    by (simp_all add: ex_direct_def)
  from ExtractAdjoint_Solution_copies [OF h1 h2, of ex_config] p u d
  show ?thesis using h1 by simp
qed

subsection \<open>The sensitivities of the points\<close>

text \<open>The rounding of a number in the normal range, and at the values of the small runs.\<close>

lemma binade_eq:
  assumes "2 powi e \<le> \<bar>x\<bar>" and "\<bar>x\<bar> < 2 powi (e + 1)"
  shows "\<lfloor>log 2 \<bar>x\<bar>\<rfloor> = e"
proof -
  have p2: "(0::real) < 2 powi e" by simp
  have pos: "0 < \<bar>x\<bar>"
    using assms(1) p2 by linarith
  have lo: "of_int e \<le> log 2 \<bar>x\<bar>"
    using assms(1) pos by (simp add: le_log_iff powr_real_of_int')
  have pw: "(2::real) powr (of_int (e + 1)) = 2 powi (e + 1)"
    by (rule powr_real_of_int') simp_all
  have "\<not> of_int (e + 1) \<le> log 2 \<bar>x\<bar>"
    using assms(2) pos by (simp only: le_log_iff [of 2 "\<bar>x\<bar>" "of_int (e + 1)"] pw)
  then have hi: "log 2 \<bar>x\<bar> < of_int e + 1" by simp
  show ?thesis using lo hi by (simp add: floor_unique)
qed

lemma round_double_normal:
  assumes "2 powi e \<le> \<bar>x\<bar>" and "\<bar>x\<bar> < 2 powi (e + 1)" and "- 1022 \<le> e"
  shows "round_double x = 2 powi (e - 52) * of_int (round_half_even (x / 2 powi (e - 52)))"
proof -
  have p2: "(0::real) < 2 powi e" by simp
  have "0 < \<bar>x\<bar>"
    using assms(1) p2 by linarith
  then have "x \<noteq> 0" by auto
  then show ?thesis
    using assms(3) by (simp add: round_double_def binade_eq [OF assms(1,2)] Let_def max_def)
qed

lemma round_double_2: "round_double 2 = 2"
  using round_double_normal [of 1 2]
  by (simp add: power_int_minus round_half_even_def)

lemma round_double_6: "round_double 6 = 6"
  using round_double_normal [of 2 6]
  by (simp add: power_int_minus round_half_even_def)


lemma round_double_edge1: "round_double ((1 + 1 / 2 ^ 30) * 1) = 1 + 1 / 2 ^ 30"
  using round_double_normal [of 0 "(1 + 1 / 2 ^ 30) * 1"]
  by (simp add: power_int_minus round_half_even_def)

lemma round_double_edge2:
  "round_double ((1 + 1 / 2 ^ 30) * (1 + 1 / 2 ^ 30)) = 1 + 1 / 2 ^ 29"
  using round_double_normal [of 0 "(1 + 1 / 2 ^ 30) * (1 + 1 / 2 ^ 30)"]
  by (simp add: power_int_minus round_half_even_def)


text \<open>The values of the small runs are far from an overflow.\<close>

lemma DBL_MAX_ge: "8 \<le> DBL_MAX"
proof -
  have "(8::real) \<le> 1 * 2 ^ 1023"
    using power_increasing [of 3 1023 "2::real"] by simp
  also have "\<dots> \<le> DBL_MAX"
    unfolding DBL_MAX_def by (rule mult_right_mono) simp_all
  finally show ?thesis .
qed

lemma to_double_finite:
  assumes "\<bar>round_double x\<bar> \<le> 8"
  shows "to_double x = Finite (round_double x)"
proof -
  from assms have "round_double x \<le> 8" "- 8 \<le> round_double x"
    by (simp_all add: abs_le_iff)
  with DBL_MAX_ge have "\<not> DBL_MAX < round_double x" "\<not> round_double x < - DBL_MAX"
    by linarith+
  then show ?thesis
    by (simp add: to_double_def Let_def)
qed

lemma fold_pointwise_inv:
  assumes step: "\<And>i b xs. i < n \<Longrightarrow> i < length xs \<Longrightarrow> I b \<Longrightarrow>
                   \<exists>b'. body i (b, xs) = (b', xs[i := h i (xs ! i)]) \<and> I b'"
    and "I b" and "n \<le> length xs"
  shows "snd (fold body [0..<n] (b, xs))
           = map (\<lambda>i. if i < n then h i (xs ! i) else xs ! i) [0..<length xs]
         \<and> I (fst (fold body [0..<n] (b, xs)))"
  using assms
proof (induction n)
  case 0
  then show ?case by (simp add: map_nth)
next
  case (Suc n)
  have IH: "snd (fold body [0..<n] (b, xs))
              = map (\<lambda>i. if i < n then h i (xs ! i) else xs ! i) [0..<length xs]
            \<and> I (fst (fold body [0..<n] (b, xs)))"
    using Suc by simp
  obtain b1 xs1 where f: "fold body [0..<n] (b, xs) = (b1, xs1)"
    by (cases "fold body [0..<n] (b, xs)")
  with IH have xs1: "xs1 = map (\<lambda>i. if i < n then h i (xs ! i) else xs ! i) [0..<length xs]"
    and b1: "I b1"
    by simp_all
  have "n < length xs1" using Suc.prems(3) by (simp add: xs1)
  with Suc.prems(1) [of n xs1 b1] b1 obtain b' where
    st: "body n (b1, xs1) = (b', xs1[n := h n (xs1 ! n)])" and b': "I b'"
    by auto
  have "snd (fold body [0..<Suc n] (b, xs)) = xs1[n := h n (xs1 ! n)]"
    by (simp add: f st)
  also have "\<dots> = map (\<lambda>i. if i < Suc n then h i (xs ! i) else xs ! i) [0..<length xs]"
    by (rule nth_equalityI) (auto simp: xs1 nth_list_update less_Suc_eq)
  finally show ?case by (simp add: f st b')
qed

text \<open>What the loop over \<open>iDim\<close> leaves of the mesh: all but the registration flags.\<close>

lemma SetSensitivity_dim_step:
  assumes I: "\<forall>j. SharpEdge_Distance (geo_node geo ! j) = SharpEdge_Distance (geo_node geo0 ! j)
                \<and> Coord_Derivative (geo_node geo ! j) = Coord_Derivative (geo_node geo0 ! j)"
  shows "\<exists>geo'. SetSensitivity_dim config iPoint iDim (geo, nd)
           = (geo', nd[iPoint := (nd ! iPoint)\<lparr>Sensitivity := (Sensitivity (nd ! iPoint))
                [iDim := (if Sens_Remove_Sharp config
                             \<and> less_double (SharpEdge_Distance (geo_node geo0 ! iPoint))
                       (times_double (SharpEdgesCoeff config)
                          (to_double (LimiterCoeff config * RefElemLength config)))
                          then 0 else Coord_Derivative (geo_node geo0 ! iPoint) ! iDim)]\<rparr>])
         \<and> (\<forall>j. SharpEdge_Distance (geo_node geo' ! j) = SharpEdge_Distance (geo_node geo0 ! j)
                \<and> Coord_Derivative (geo_node geo' ! j) = Coord_Derivative (geo_node geo0 ! j))"
proof -
  let ?g = "geo\<lparr>geo_node := (geo_node geo)
              [iPoint := (geo_node geo ! iPoint)\<lparr>Coord_Input :=
                 (Coord_Input (geo_node geo ! iPoint))[iDim := False]\<rparr>]\<rparr>"
  have keep: "SharpEdge_Distance (geo_node ?g ! j) = SharpEdge_Distance (geo_node geo0 ! j)
              \<and> Coord_Derivative (geo_node ?g ! j) = Coord_Derivative (geo_node geo0 ! j)" for j
    using I by (cases "iPoint < length (geo_node geo)"; cases "j = iPoint")
      (simp_all add: list_update_beyond)
  show ?thesis
    using keep I by (simp add: SetSensitivity_dim_def Let_def)
qed


lemma SetSensitivity_point_result:
  assumes I: "\<forall>j. SharpEdge_Distance (geo_node geo ! j) = SharpEdge_Distance (geo_node geo0 ! j)
                \<and> Coord_Derivative (geo_node geo ! j) = Coord_Derivative (geo_node geo0 ! j)"
    and i: "iPoint < length nd"
  shows "\<exists>geo'. SetSensitivity_point config ndim iPoint (geo, nd)
           = (geo', nd[iPoint := (nd ! iPoint)\<lparr>Sensitivity :=
                map (\<lambda>k. if k < ndim
                          then (if Sens_Remove_Sharp config
                                   \<and> less_double (SharpEdge_Distance (geo_node geo0 ! iPoint))
                       (times_double (SharpEdgesCoeff config)
                          (to_double (LimiterCoeff config * RefElemLength config)))
                                then 0 else Coord_Derivative (geo_node geo0 ! iPoint) ! k)
                          else Sensitivity (nd ! iPoint) ! k)
                    [0..<length (Sensitivity (nd ! iPoint))]\<rparr>])
         \<and> (\<forall>j. SharpEdge_Distance (geo_node geo' ! j) = SharpEdge_Distance (geo_node geo0 ! j)
                \<and> Coord_Derivative (geo_node geo' ! j) = Coord_Derivative (geo_node geo0 ! j))"
proof (induction ndim)
  case 0
  show ?case using I by (simp add: SetSensitivity_point_def map_nth)
next
  case (Suc n)
  let ?val = "\<lambda>k. if Sens_Remove_Sharp config
                        \<and> less_double (SharpEdge_Distance (geo_node geo0 ! iPoint))
                       (times_double (SharpEdgesCoeff config)
                          (to_double (LimiterCoeff config * RefElemLength config)))
                     then 0 else Coord_Derivative (geo_node geo0 ! iPoint) ! k"
  let ?S = "Sensitivity (nd ! iPoint)"
  from Suc obtain geo1 where
    f: "SetSensitivity_point config n iPoint (geo, nd)
          = (geo1, nd[iPoint := (nd ! iPoint)\<lparr>Sensitivity :=
               map (\<lambda>k. if k < n then ?val k else ?S ! k) [0..<length ?S]\<rparr>])"
    and I1: "\<forall>j. SharpEdge_Distance (geo_node geo1 ! j) = SharpEdge_Distance (geo_node geo0 ! j)
                \<and> Coord_Derivative (geo_node geo1 ! j) = Coord_Derivative (geo_node geo0 ! j)"
    by blast
  let ?nd1 = "nd[iPoint := (nd ! iPoint)\<lparr>Sensitivity :=
               map (\<lambda>k. if k < n then ?val k else ?S ! k) [0..<length ?S]\<rparr>]"
  from SetSensitivity_dim_step [OF I1, of config iPoint n ?nd1] obtain geo2 where
    st: "SetSensitivity_dim config iPoint n (geo1, ?nd1)
           = (geo2, ?nd1[iPoint := (?nd1 ! iPoint)\<lparr>Sensitivity :=
                (Sensitivity (?nd1 ! iPoint))[n := ?val n]\<rparr>])"
    and I2: "\<forall>j. SharpEdge_Distance (geo_node geo2 ! j) = SharpEdge_Distance (geo_node geo0 ! j)
                \<and> Coord_Derivative (geo_node geo2 ! j) = Coord_Derivative (geo_node geo0 ! j)"
    by blast
  have upd: "(map (\<lambda>k. if k < n then ?val k else ?S ! k) [0..<length ?S])[n := ?val n]
             = map (\<lambda>k. if k < Suc n then ?val k else ?S ! k) [0..<length ?S]"
    by (rule nth_equalityI) (auto simp: nth_list_update less_Suc_eq)
  have "SetSensitivity_point config (Suc n) iPoint (geo, nd)
        = SetSensitivity_dim config iPoint n (SetSensitivity_point config n iPoint (geo, nd))"
    by (simp add: SetSensitivity_point_def)
  also have "\<dots> = (geo2, ?nd1[iPoint := (?nd1 ! iPoint)\<lparr>Sensitivity :=
                (Sensitivity (?nd1 ! iPoint))[n := ?val n]\<rparr>])"
    by (simp only: f st)
  also have "?nd1[iPoint := (?nd1 ! iPoint)\<lparr>Sensitivity :=
                (Sensitivity (?nd1 ! iPoint))[n := ?val n]\<rparr>]
             = nd[iPoint := (nd ! iPoint)\<lparr>Sensitivity :=
                 map (\<lambda>k. if k < Suc n then ?val k else ?S ! k) [0..<length ?S]\<rparr>]"
    using i by (simp add: upd)
  finally show ?case using I2 by blast
qed

lemma SetSensitivity_points_node:
  assumes np: "nPoint solver \<le> length (node solver)"
    and i: "iPoint < nPoint solver"
  shows "node (snd (SetSensitivity_points geometry config solver)) ! iPoint
         = (node solver ! iPoint)\<lparr>Sensitivity :=
              map (\<lambda>k. if k < nDim solver
                        then (if Sens_Remove_Sharp config
                                 \<and> less_double (SharpEdge_Distance (geo_node geometry ! iPoint))
                       (times_double (SharpEdgesCoeff config)
                          (to_double (LimiterCoeff config * RefElemLength config)))
                              then 0 else Coord_Derivative (geo_node geometry ! iPoint) ! k)
                        else Sensitivity (node solver ! iPoint) ! k)
                  [0..<length (Sensitivity (node solver ! iPoint))]\<rparr>"
proof -
  let ?I = "\<lambda>geo. \<forall>j. SharpEdge_Distance (geo_node geo ! j) = SharpEdge_Distance (geo_node geometry ! j)
                \<and> Coord_Derivative (geo_node geo ! j) = Coord_Derivative (geo_node geometry ! j)"
  let ?h = "\<lambda>i v. v\<lparr>Sensitivity :=
              map (\<lambda>k. if k < nDim solver
                        then (if Sens_Remove_Sharp config
                                 \<and> less_double (SharpEdge_Distance (geo_node geometry ! i))
                       (times_double (SharpEdgesCoeff config)
                          (to_double (LimiterCoeff config * RefElemLength config)))
                              then 0 else Coord_Derivative (geo_node geometry ! i) ! k)
                        else Sensitivity v ! k)
                  [0..<length (Sensitivity v)]\<rparr>"
  have step: "\<exists>b'. SetSensitivity_point config (nDim solver) i (b, xs) = (b', xs[i := ?h i (xs ! i)]) \<and> ?I b'"
    if "i < length xs" "?I b" for i b xs
    using SetSensitivity_point_result [OF that(2) that(1), of config "nDim solver"] .
  have "snd (fold (SetSensitivity_point config (nDim solver)) [0..<nPoint solver] (geometry, node solver))
        = map (\<lambda>i. if i < nPoint solver then ?h i (node solver ! i) else node solver ! i)
            [0..<length (node solver)]"
    using fold_pointwise_inv [where I = ?I and h = ?h
        and body = "SetSensitivity_point config (nDim solver)" and n = "nPoint solver"
        and b = geometry and xs = "node solver"] step np
    by blast
  moreover have "map f [0..<length (node solver)] ! iPoint = f iPoint" for f :: "nat \<Rightarrow> CDiscAdjVariable"
    using i np by simp
  ultimately have "snd (fold (SetSensitivity_point config (nDim solver)) [0..<nPoint solver]
                     (geometry, node solver)) ! iPoint
                   = (if iPoint < nPoint solver then ?h iPoint (node solver ! iPoint)
                      else node solver ! iPoint)"
    by (simp only:)
  then show ?thesis
    using i by (simp add: SetSensitivity_points_def Let_def)
qed


lemma SetSurface_Sensitivity_local_node:
  "node (fst (SetSurface_Sensitivity_local geometry config solver)) = node solver"
  by (simp add: SetSurface_Sensitivity_local_def split_beta)

lemma SetSensitivity_node:
  assumes "r < length procs" and "procs ! r = (geometry, config, solver)"
  shows "node (snd (SetSensitivity have_mpi procs ! r))
         = node (snd (SetSensitivity_points geometry config solver))"
  using assms
  by (simp add: SetSensitivity_def SetSurface_Sensitivity_def Let_def split_beta
      SetSurface_Sensitivity_local_node)

text \<open>
  Claim C5. On every process of a run, for every point and every coordinate dimension,
  \<^verbatim>\<open>SetSensitivity\<close> stores 0 as the sensitivity when sharp-edge removal is enabled and
  the sharp-edge distance of the point is below
  \<open>SharpEdgesCoeff * (LimiterCoeff * RefElemLength)\<close>, each product being the product of
  doubles, rounded as soon as it is computed (and an infinity where it overflows),
  whatever the derivative the tape holds for the coordinate; otherwise it stores that
  derivative.
\<close>

theorem SetSensitivity_sharp_edge:
  assumes "r < length procs" and "procs ! r = (geometry, config, solver)"
    and "nPoint solver \<le> length (node solver)"
    and "\<forall>i<nPoint solver. nDim solver \<le> length (Sensitivity (node solver ! i))"
  shows "\<forall>iPoint<nPoint solver. \<forall>iDim<nDim solver.
           Sensitivity (node (snd (SetSensitivity have_mpi procs ! r)) ! iPoint) ! iDim
           = (if Sens_Remove_Sharp config
                 \<and> less_double (SharpEdge_Distance (geo_node geometry ! iPoint))
                       (times_double (SharpEdgesCoeff config)
                          (to_double (LimiterCoeff config * RefElemLength config)))
              then 0
              else Coord_Derivative (geo_node geometry ! iPoint) ! iDim)"
proof (intro allI impI)
  fix iPoint iDim
  assume p: "iPoint < nPoint solver" and d: "iDim < nDim solver"
  from assms(4) p d have dl: "iDim < length (Sensitivity (node solver ! iPoint))"
    by (meson less_le_trans)
  have "map f [0..<length (Sensitivity (node solver ! iPoint))] ! iDim = f iDim"
    for f :: "nat \<Rightarrow> su2double"
    using dl by simp
  then show "Sensitivity (node (snd (SetSensitivity have_mpi procs ! r)) ! iPoint) ! iDim
           = (if Sens_Remove_Sharp config
                 \<and> less_double (SharpEdge_Distance (geo_node geometry ! iPoint))
                       (times_double (SharpEdgesCoeff config)
                          (to_double (LimiterCoeff config * RefElemLength config)))
              then 0
              else Coord_Derivative (geo_node geometry ! iPoint) ! iDim)"
    using d
    by (simp add: SetSensitivity_node [OF assms(1,2)] SetSensitivity_points_node [OF assms(3) p])
qed

theorem SetSensitivity_sharp_edge_witness:
  "(0::nat) < length [(ex_geometry, ex_config, ex_solver)]
   \<and> nPoint ex_solver \<le> length (node ex_solver)
   \<and> Sens_Remove_Sharp ex_config
   \<and> SharpEdge_Distance (geo_node ex_geometry ! 1) = 1
   \<and> SharpEdge_Distance (geo_node ex_geometry ! 0) = 10
   \<and> times_double (SharpEdgesCoeff ex_config)
         (to_double (LimiterCoeff ex_config * RefElemLength ex_config)) = Finite (6)
   \<and> Coord_Derivative (geo_node ex_geometry ! 1) ! 1 = 7
   \<and> Sensitivity (node (snd (SetSensitivity False [(ex_geometry, ex_config, ex_solver)] ! 0)) ! 1) ! 1 = 0
   \<and> Sensitivity (node (snd (SetSensitivity False [(ex_geometry, ex_config, ex_solver)] ! 0)) ! 0) ! 1 = 4
   \<and> Sens_Remove_Sharp ex_edge_config
   \<and> SharpEdge_Distance (geo_node ex_edge_geometry ! 0) = 1 + 1 / 2 ^ 29
   \<and> SharpEdge_Distance (geo_node ex_edge_geometry ! 0)
       < SharpEdgesCoeff ex_edge_config * (LimiterCoeff ex_edge_config * RefElemLength ex_edge_config)
   \<and> times_double (SharpEdgesCoeff ex_edge_config)
         (to_double (LimiterCoeff ex_edge_config * RefElemLength ex_edge_config))
       = Finite (1 + 1 / 2 ^ 29)
   \<and> Coord_Derivative (geo_node ex_edge_geometry ! 0) = [3, 4]
   \<and> Sensitivity (node (snd (SetSensitivity False
         [(ex_edge_geometry, ex_edge_config, ex_solver)] ! 0)) ! 0) ! 0 = 3
   \<and> Sensitivity (node (snd (SetSensitivity False
         [(ex_edge_geometry, ex_edge_config, ex_solver)] ! 0)) ! 0) ! 1 = 4"
proof -
  have h1: "(0::nat) < length [(ex_geometry, ex_config, ex_solver)]" by simp
  have h2: "[(ex_geometry, ex_config, ex_solver)] ! 0 = (ex_geometry, ex_config, ex_solver)" by simp
  have h3: "nPoint ex_solver \<le> length (node ex_solver)" by (simp add: ex_solver_def)
  have h4: "\<forall>i<nPoint ex_solver. nDim ex_solver \<le> length (Sensitivity (node ex_solver ! i))"
    by (simp add: ex_solver_def less_Suc_eq numeral_2_eq_2)
  have p: "(1::nat) < nPoint ex_solver" "(0::nat) < nPoint ex_solver" "(1::nat) < nDim ex_solver"
    "(0::nat) < nDim ex_solver"
    by (simp_all add: ex_solver_def)
  have c: "Sens_Remove_Sharp ex_config"
    "times_double (SharpEdgesCoeff ex_config)
         (to_double (LimiterCoeff ex_config * RefElemLength ex_config)) = Finite (6)"
    by (simp_all add: ex_config_def to_double_finite round_double_2 round_double_6)
  have g: "SharpEdge_Distance (geo_node ex_geometry ! 1) = 1"
    "SharpEdge_Distance (geo_node ex_geometry ! 0) = 10"
    "Coord_Derivative (geo_node ex_geometry ! 1) ! 1 = 7"
    "Coord_Derivative (geo_node ex_geometry ! 0) ! 1 = 4"
    by (simp_all add: ex_geometry_def)
  from SetSensitivity_sharp_edge [OF h1 h2 h3 h4, of False] p c g
  have a: "Sensitivity (node (snd (SetSensitivity False [(ex_geometry, ex_config, ex_solver)] ! 0)) ! 1) ! 1 = 0
   \<and> Sensitivity (node (snd (SetSensitivity False [(ex_geometry, ex_config, ex_solver)] ! 0)) ! 0) ! 1 = 4"
    by simp
  have e1: "(0::nat) < length [(ex_edge_geometry, ex_edge_config, ex_solver)]" by simp
  have e2: "[(ex_edge_geometry, ex_edge_config, ex_solver)] ! 0
            = (ex_edge_geometry, ex_edge_config, ex_solver)" by simp
  have ec: "Sens_Remove_Sharp ex_edge_config"
    "times_double (SharpEdgesCoeff ex_edge_config)
         (to_double (LimiterCoeff ex_edge_config * RefElemLength ex_edge_config))
     = Finite (1 + 1 / 2 ^ 29)"
proof -
    show "Sens_Remove_Sharp ex_edge_config"
      by (simp add: ex_edge_config_def ex_config_def)
    have 1: "to_double ((1 + 1 / 2 ^ 30) * 1) = Finite (1 + 1 / 2 ^ 30)"
      unfolding to_double_def Let_def round_double_edge1 using DBL_MAX_ge by simp
    have 2: "to_double ((1 + 1 / 2 ^ 30) * (1 + 1 / 2 ^ 30)) = Finite (1 + 1 / 2 ^ 29)"
      unfolding to_double_def Let_def round_double_edge2 using DBL_MAX_ge by simp
    show "times_double (SharpEdgesCoeff ex_edge_config)
         (to_double (LimiterCoeff ex_edge_config * RefElemLength ex_edge_config))
     = Finite (1 + 1 / 2 ^ 29)"
      by (simp only: ex_edge_config_def ex_config_def CConfig.simps 1 2 times_double.simps)
  qed
  have ex: "SharpEdge_Distance (geo_node ex_edge_geometry ! 0)
       < SharpEdgesCoeff ex_edge_config * (LimiterCoeff ex_edge_config * RefElemLength ex_edge_config)"
    by (simp add: ex_edge_geometry_def ex_edge_config_def ex_config_def)
  have eg: "SharpEdge_Distance (geo_node ex_edge_geometry ! 0) = 1 + 1 / 2 ^ 29"
    "Coord_Derivative (geo_node ex_edge_geometry ! 0) = [3, 4]"
    by (simp_all add: ex_edge_geometry_def)
  from SetSensitivity_sharp_edge [OF e1 e2 h3 h4, of False] p
  have b: "Sensitivity (node (snd (SetSensitivity False
         [(ex_edge_geometry, ex_edge_config, ex_solver)] ! 0)) ! 0) ! 0 = 3
   \<and> Sensitivity (node (snd (SetSensitivity False
         [(ex_edge_geometry, ex_edge_config, ex_solver)] ! 0)) ! 0) ! 1 = 4"
    by (simp add: ec eg)
  show ?thesis using h1 h3 c g a ec ex eg b by simp
qed

subsection \<open>The surface sensitivities\<close>

lemma vertex_Prod_Area_sum:
  "vertex_Prod_Area ndim N S = (\<Sum>d<ndim. N ! d * S ! d, \<Sum>d<ndim. N ! d * N ! d)"
  unfolding vertex_Prod_Area_def
  by (induction ndim) (simp_all add: Let_def)

lemma vertex_Sens_projection:
  "vertex_Sens geometry solver iMarker iVertex
   = (\<Sum>d<nDim solver. Normal (vertex geometry ! iMarker ! iVertex) ! d
         * Sensitivity (node solver ! Node (vertex geometry ! iMarker ! iVertex)) ! d)
     / sqrt (\<Sum>d<nDim solver. Normal (vertex geometry ! iMarker ! iVertex) ! d
         * Normal (vertex geometry ! iMarker ! iVertex) ! d)"
  by (simp add: vertex_Sens_def vertex_Prod_Area_sum Let_def)

lemma row_update:
  assumes "n < L"
  shows "(map (\<lambda>v. if v < n then g v else r ! v) [0..<L])[n := g n]
         = map (\<lambda>v. if v < Suc n then g v else r ! v) [0..<L]"
  by (rule nth_equalityI) (use assms in \<open>auto simp: nth_list_update less_Suc_eq\<close>)

lemma surface_vertex_loop:
  assumes m: "m < length CS" and nv: "nv \<le> length (CS ! m)" and g: "m < length SG"
  shows "fold (surface_vertex geometry solver m) [0..<nv] (CS, SG)
         = (CS[m := map (\<lambda>v. if v < nv
                          then (if Flip_Orientation (geo_node geometry ! Node (vertex geometry ! m ! v))
                                then vertex_Sens geometry solver m v
                                else - vertex_Sens geometry solver m v)
                          else CS ! m ! v) [0..<length (CS ! m)]],
            SG[m := SG ! m + (\<Sum>v<nv. if Domain (geo_node geometry ! Node (vertex geometry ! m ! v))
                                       then vertex_Sens geometry solver m v * vertex_Sens geometry solver m v
                                       else 0)])"
  using nv
proof (induction nv)
  case 0
  show ?case by (simp add: map_nth)
next
  case (Suc n)
  let ?st = "\<lambda>v. if Flip_Orientation (geo_node geometry ! Node (vertex geometry ! m ! v))
                   then vertex_Sens geometry solver m v else - vertex_Sens geometry solver m v"
  let ?sq = "\<lambda>v. if Domain (geo_node geometry ! Node (vertex geometry ! m ! v))
                   then vertex_Sens geometry solver m v * vertex_Sens geometry solver m v else 0"
  let ?row = "map (\<lambda>v. if v < n then ?st v else CS ! m ! v) [0..<length (CS ! m)]"
  have n: "n < length (CS ! m)" using Suc.prems by simp
  have IH: "fold (surface_vertex geometry solver m) [0..<n] (CS, SG)
            = (CS[m := ?row], SG[m := SG ! m + (\<Sum>v<n. ?sq v)])"
    using Suc by simp
  have rowlen: "n < length ?row" using n by simp
  have step: "surface_vertex geometry solver m n (CS[m := ?row], SG[m := SG ! m + (\<Sum>v<n. ?sq v)])
              = (CS[m := ?row[n := ?st n]], SG[m := SG ! m + (\<Sum>v<n. ?sq v) + ?sq n])"
    using m g rowlen by (simp add: surface_vertex_def Let_def)
  have "fold (surface_vertex geometry solver m) [0..<Suc n] (CS, SG)
        = surface_vertex geometry solver m n (fold (surface_vertex geometry solver m) [0..<n] (CS, SG))"
    by simp
  also have "\<dots> = (CS[m := ?row[n := ?st n]], SG[m := SG ! m + (\<Sum>v<n. ?sq v) + ?sq n])"
    by (simp only: IH step)
  also have "?row[n := ?st n] = map (\<lambda>v. if v < Suc n then ?st v else CS ! m ! v) [0..<length (CS ! m)]"
    using n by (rule row_update)
  also have "SG ! m + (\<Sum>v<n. ?sq v) + ?sq n = SG ! m + (\<Sum>v<Suc n. ?sq v)"
    by simp
  finally show ?case .
qed


lemma surface_marker_unfold:
  "surface_marker geometry config solver iMarker (CS, SG, t)
   = (if wall_marker config iMarker
      then (let r = fold (surface_vertex geometry solver iMarker) [0..<nVertex geometry iMarker]
                      (CS, SG[iMarker := 0])
            in (fst r, snd r, t + sqrt (snd r ! iMarker)))
      else (CS, SG[iMarker := 0], t))"
  by (simp add: surface_marker_def Let_def split_beta)

lemma surface_marker_loop:
  assumes "k \<le> length CS" and "k \<le> length SG"
    and "\<forall>m<k. nVertex geometry m \<le> length (CS ! m)"
  shows "fold (surface_marker geometry config solver) [0..<k] (CS, SG, t)
         = (map (\<lambda>m. if m < k \<and> wall_marker config m
                       then map (\<lambda>v. if v < nVertex geometry m
                                  then (if Flip_Orientation (geo_node geometry ! Node (vertex geometry ! m ! v))
                                        then vertex_Sens geometry solver m v
                                        else - vertex_Sens geometry solver m v)
                                  else CS ! m ! v) [0..<length (CS ! m)]
                       else CS ! m) [0..<length CS],
            map (\<lambda>m. if m < k
                       then (if wall_marker config m
                             then (\<Sum>v<nVertex geometry m.
                                     if Domain (geo_node geometry ! Node (vertex geometry ! m ! v))
                                     then vertex_Sens geometry solver m v * vertex_Sens geometry solver m v
                                     else 0)
                             else 0)
                       else SG ! m) [0..<length SG],
            t + (\<Sum>m<k. if wall_marker config m
                         then sqrt (\<Sum>v<nVertex geometry m.
                                     if Domain (geo_node geometry ! Node (vertex geometry ! m ! v))
                                     then vertex_Sens geometry solver m v * vertex_Sens geometry solver m v
                                     else 0)
                         else 0))"
  using assms
proof (induction k)
  case 0
  show ?case by (simp add: map_nth)
next
  case (Suc k)
  let ?row = "\<lambda>m. map (\<lambda>v. if v < nVertex geometry m
                                  then (if Flip_Orientation (geo_node geometry ! Node (vertex geometry ! m ! v))
                                        then vertex_Sens geometry solver m v
                                        else - vertex_Sens geometry solver m v)
                                  else CS ! m ! v) [0..<length (CS ! m)]"
  let ?sq = "\<lambda>m. (\<Sum>v<nVertex geometry m.
                                     if Domain (geo_node geometry ! Node (vertex geometry ! m ! v))
                                     then vertex_Sens geometry solver m v * vertex_Sens geometry solver m v
                                     else 0)"
  let ?CS = "\<lambda>k. map (\<lambda>m. if m < k \<and> wall_marker config m then ?row m else CS ! m) [0..<length CS]"
  let ?SG = "\<lambda>k. map (\<lambda>m. if m < k then (if wall_marker config m then ?sq m else 0) else SG ! m)
                    [0..<length SG]"
  let ?t = "\<lambda>k. t + (\<Sum>m<k. if wall_marker config m then sqrt (?sq m) else 0)"
  have kc: "k < length CS" and kg: "k < length SG"
    and kv: "nVertex geometry k \<le> length (CS ! k)"
    using Suc.prems by simp_all
  have IH: "fold (surface_marker geometry config solver) [0..<k] (CS, SG, t) = (?CS k, ?SG k, ?t k)"
    using Suc by simp
  have csk: "?CS k ! k = CS ! k" using kc by simp
  have CSs: "(?CS k)[k := y] = map (\<lambda>m. if m < Suc k then (if m = k then y else ?CS k ! m) else CS ! m)
                                  [0..<length CS]" for y
    by (rule nth_equalityI) (use kc in \<open>auto simp: nth_list_update less_Suc_eq cong del: if_weak_cong\<close>)
  have SGs: "(?SG k)[k := y] = map (\<lambda>m. if m < Suc k then (if m = k then y else ?SG k ! m) else SG ! m)
                                  [0..<length SG]" for y
    by (rule nth_equalityI) (use kg in \<open>auto simp: nth_list_update less_Suc_eq cong del: if_weak_cong\<close>)
  have step: "surface_marker geometry config solver k (?CS k, ?SG k, ?t k)
              = (?CS (Suc k), ?SG (Suc k), ?t (Suc k))"
  proof (cases "wall_marker config k")
    case True
    have kc': "k < length (?CS k)" and kg': "k < length ((?SG k)[k := 0])"
      and kv': "nVertex geometry k \<le> length (?CS k ! k)"
      using kc kg kv by simp_all
    have inner: "fold (surface_vertex geometry solver k) [0..<nVertex geometry k] (?CS k, (?SG k)[k := 0])
                 = ((?CS k)[k := ?row k], (?SG k)[k := ?sq k])"
      using kg surface_vertex_loop [OF kc' kv' kg', where geometry = geometry and solver = solver,
          unfolded csk]
      by simp
    have 1: "(?CS k)[k := ?row k] = ?CS (Suc k)"
      by (rule nth_equalityI) (use kc True in \<open>auto simp: nth_list_update less_Suc_eq cong del: if_weak_cong\<close>)
    have 2: "(?SG k)[k := ?sq k] = ?SG (Suc k)"
      by (rule nth_equalityI) (use kg True in \<open>auto simp: nth_list_update less_Suc_eq cong del: if_weak_cong\<close>)
    have nthSG: "map f [0..<length SG] ! k = f k" for f :: "nat \<Rightarrow> su2double"
      using kg by simp
    have 3: "?SG (Suc k) ! k = ?sq k"
      by (simp only: nthSG) (use True in simp)
    have tS: "?t k + sqrt (?sq k) = ?t (Suc k)"
      using True by simp
    have e: "surface_marker geometry config solver k (?CS k, ?SG k, ?t k)
          = ((?CS k)[k := ?row k], (?SG k)[k := ?sq k], ?t k + sqrt (((?SG k)[k := ?sq k]) ! k))"
      using True by (simp only: surface_marker_unfold Let_def inner fst_conv snd_conv if_True)
    show ?thesis
      by (simp only: e 1 2 3 tS)
  next
    case False
    have 1: "?CS k = ?CS (Suc k)"
      by (rule nth_equalityI) (use False in \<open>auto simp: less_Suc_eq cong del: if_weak_cong\<close>)
    have 2: "(?SG k)[k := 0] = ?SG (Suc k)"
      by (rule nth_equalityI) (use kg False in \<open>auto simp: nth_list_update less_Suc_eq cong del: if_weak_cong\<close>)
    have tS: "?t k = ?t (Suc k)"
      using False by simp
    have e: "surface_marker geometry config solver k (?CS k, ?SG k, ?t k)
          = (?CS k, (?SG k)[k := 0], ?t k)"
      using False by (simp only: surface_marker_unfold if_False)
    have "(?CS k, (?SG k)[k := 0], ?t k) = (?CS (Suc k), ?SG (Suc k), ?t (Suc k))"
      using 1 2 tS by (simp only:)
    with e show ?thesis by (rule trans)
  qed
  have "fold (surface_marker geometry config solver) [0..<Suc k] (CS, SG, t)
        = surface_marker geometry config solver k
            (fold (surface_marker geometry config solver) [0..<k] (CS, SG, t))"
    by simp
  then show ?case by (simp only: IH step)
qed


lemma local_CSensitivity:
  assumes wf: "nMarker solver \<le> length (CSensitivity solver)"
      "nMarker solver \<le> length (Sens_Geo solver)"
      "\<forall>m<nMarker solver. nVertex geometry m \<le> length (CSensitivity solver ! m)"
    and m: "m < nMarker solver" and v: "v < nVertex geometry m"
  shows "CSensitivity (fst (SetSurface_Sensitivity_local geometry config solver)) ! m ! v
         = (if wall_marker config m
            then (if Flip_Orientation (geo_node geometry ! Node (vertex geometry ! m ! v))
                  then vertex_Sens geometry solver m v
                  else - vertex_Sens geometry solver m v)
            else CSensitivity solver ! m ! v)"
proof -
  have ml: "m < length (CSensitivity solver)" using m wf(1) by simp
  have vl: "v < length (CSensitivity solver ! m)" using v m wf(3) by (meson less_le_trans)
  have nm: "map f [0..<length (CSensitivity solver)] ! m = f m" for f :: "nat \<Rightarrow> su2double list"
    using ml by simp
  have nv: "map f [0..<length (CSensitivity solver ! m)] ! v = f v" for f :: "nat \<Rightarrow> su2double"
    using vl by simp
  show ?thesis
    using m v
    by (simp add: SetSurface_Sensitivity_local_def surface_marker_loop [OF wf] nm nv)
qed

lemma local_total:
  assumes wf: "nMarker solver \<le> length (CSensitivity solver)"
      "nMarker solver \<le> length (Sens_Geo solver)"
      "\<forall>m<nMarker solver. nVertex geometry m \<le> length (CSensitivity solver ! m)"
  shows "snd (SetSurface_Sensitivity_local geometry config solver)
         = (\<Sum>m<nMarker solver.
              if wall_marker config m
              then sqrt (\<Sum>v<nVertex geometry m.
                     if Domain (geo_node geometry ! Node (vertex geometry ! m ! v))
                     then vertex_Sens geometry solver m v * vertex_Sens geometry solver m v
                     else 0)
              else 0)"
  by (simp add: SetSurface_Sensitivity_local_def surface_marker_loop [OF wf])

lemma SetSurface_Sensitivity_nth:
  assumes "r < length procs" and "procs ! r = (geometry, config, solver)"
  shows "SetSurface_Sensitivity have_mpi procs ! r
         = (fst (SetSurface_Sensitivity_local geometry config solver))
             \<lparr>Total_Sens_Geo :=
                (if have_mpi
                 then (\<Sum>q<length procs.
                         snd (SetSurface_Sensitivity_local (fst (procs ! q)) (fst (snd (procs ! q)))
                                (snd (snd (procs ! q)))))
                 else snd (SetSurface_Sensitivity_local geometry config solver))\<rparr>"
proof -
  have "sum_list (map (\<lambda>x. snd (case x of (geometry, config, solver) \<Rightarrow>
                 SetSurface_Sensitivity_local geometry config solver)) procs)
        = (\<Sum>q<length procs.
                         snd (SetSurface_Sensitivity_local (fst (procs ! q)) (fst (snd (procs ! q)))
                                (snd (snd (procs ! q)))))"
    by (simp add: sum_list_sum_nth split_beta atLeast0LessThan)
  then show ?thesis
    using assms
    by (simp add: SetSurface_Sensitivity_def Allreduce_SUM_def Let_def split_beta comp_def)
qed


lemma surface_arrays_okD:
  assumes "surface_arrays_ok geometry solver"
  shows "nMarker solver \<le> length (CSensitivity solver)"
    and "nMarker solver \<le> length (Sens_Geo solver)"
    and "\<forall>m<nMarker solver. nVertex geometry m \<le> length (CSensitivity solver ! m)"
  using assms by (simp_all add: surface_arrays_ok_def)




lemma ex_arrays_ok: "surface_arrays_ok ex_geometry ex_solver"
  by (simp add: surface_arrays_ok_def ex_geometry_def ex_solver_def nVertex_def less_Suc_eq
      numeral_2_eq_2)

lemma ex_projection_0:
  "normal_projection (nDim ex_solver) (Normal (vertex ex_geometry ! 0 ! 0))
     (Sensitivity (node ex_solver ! Node (vertex ex_geometry ! 0 ! 0))) = 3"
  by (simp add: normal_projection_def ex_geometry_def ex_solver_def numeral_2_eq_2)

lemma ex_projection_1:
  "normal_projection (nDim ex_solver) (Normal (vertex ex_geometry ! 0 ! 1))
     (Sensitivity (node ex_solver ! Node (vertex ex_geometry ! 0 ! 1))) = 4"
  by (simp add: normal_projection_def ex_geometry_def ex_solver_def numeral_2_eq_2)


lemma ex_marker_facts:
  "wall_marker ex_config 0" "\<not> wall_marker ex_config 1"
  "\<not> Flip_Orientation (geo_node ex_geometry ! Node (vertex ex_geometry ! 0 ! 0))"
  "Flip_Orientation (geo_node ex_geometry ! Node (vertex ex_geometry ! 0 ! 1))"
  "(0::nat) < nMarker ex_solver" "(1::nat) < nMarker ex_solver"
  "(0::nat) < nVertex ex_geometry 0" "(1::nat) < nVertex ex_geometry 0"
  "(0::nat) < nVertex ex_geometry 1"
  by (simp_all add: wall_marker_def ex_config_def ex_geometry_def ex_solver_def nVertex_def)


lemma local_nMarker:
  "nMarker (fst (SetSurface_Sensitivity_local geometry config solver)) = nMarker solver"
  by (simp add: SetSurface_Sensitivity_local_def split_beta)

lemma rank_local_total_local:
  assumes wf: "surface_arrays_ok geometry solver"
  shows "rank_local_total geometry config
           ((fst (SetSurface_Sensitivity_local geometry config solver))\<lparr>Total_Sens_Geo := x\<rparr>)
         = snd (SetSurface_Sensitivity_local geometry config solver)"
proof -
  let ?CS = "CSensitivity (fst (SetSurface_Sensitivity_local geometry config solver))"
  have inner: "marker_magnitude geometry ?CS m
               = sqrt (\<Sum>v<nVertex geometry m.
                     if Domain (geo_node geometry ! Node (vertex geometry ! m ! v))
                     then vertex_Sens geometry solver m v * vertex_Sens geometry solver m v
                     else 0)"
    if m: "m < nMarker solver" and w: "wall_marker config m" for m
  proof -
    have "(if Domain (geo_node geometry ! Node (vertex geometry ! m ! v))
           then (?CS ! m ! v)\<^sup>2 else 0)
          = (if Domain (geo_node geometry ! Node (vertex geometry ! m ! v))
             then vertex_Sens geometry solver m v * vertex_Sens geometry solver m v else 0)"
      if "v \<in> {..<nVertex geometry m}" for v
    proof -
      from that have v: "v < nVertex geometry m" by simp
      have "(?CS ! m ! v)\<^sup>2 = vertex_Sens geometry solver m v * vertex_Sens geometry solver m v"
        using w by (simp add: local_CSensitivity [OF surface_arrays_okD [OF wf] m v] power2_eq_square)
      then show ?thesis by simp
    qed
    then have "(\<Sum>v<nVertex geometry m.
                  if Domain (geo_node geometry ! Node (vertex geometry ! m ! v))
                  then (?CS ! m ! v)\<^sup>2 else 0)
               = (\<Sum>v<nVertex geometry m.
                  if Domain (geo_node geometry ! Node (vertex geometry ! m ! v))
                  then vertex_Sens geometry solver m v * vertex_Sens geometry solver m v else 0)"
      by (rule sum.cong [OF refl])
    then show ?thesis
      unfolding marker_magnitude_def by (rule arg_cong)
  qed
  have "(if wall_marker config m then marker_magnitude geometry ?CS m else 0)
        = (if wall_marker config m
           then sqrt (\<Sum>v<nVertex geometry m.
                     if Domain (geo_node geometry ! Node (vertex geometry ! m ! v))
                     then vertex_Sens geometry solver m v * vertex_Sens geometry solver m v
                     else 0)
           else 0)"
    if "m \<in> {..<nMarker solver}" for m
    using that inner [of m] by simp
  then have "(\<Sum>m<nMarker solver. if wall_marker config m then marker_magnitude geometry ?CS m else 0)
        = (\<Sum>m<nMarker solver. if wall_marker config m
           then sqrt (\<Sum>v<nVertex geometry m.
                     if Domain (geo_node geometry ! Node (vertex geometry ! m ! v))
                     then vertex_Sens geometry solver m v * vertex_Sens geometry solver m v
                     else 0)
           else 0)"
    by (rule sum.cong [OF refl])
  moreover have "rank_local_total geometry config
           ((fst (SetSurface_Sensitivity_local geometry config solver))\<lparr>Total_Sens_Geo := x\<rparr>)
        = (\<Sum>m<nMarker solver. if wall_marker config m then marker_magnitude geometry ?CS m else 0)"
    by (simp add: rank_local_total_def local_nMarker cong del: if_weak_cong)
  ultimately show ?thesis
    by (simp only: local_total [OF surface_arrays_okD [OF wf]])
qed



text \<open>
  Claim C8. After \<^verbatim>\<open>SetSurface_Sensitivity\<close>, the rank-local total of a process is the sum,
  over its wall markers, of the square root of the sum of the squares of the stored
  per-vertex sensitivities over the vertices whose point the partition owns; with MPI
  the published \<^verbatim>\<open>Total_Sens_Geo\<close> of every rank is the sum of the rank-local totals of
  all ranks, and without MPI it is the rank-local total of the one process.
\<close>

theorem Total_Sens_Geo_collective_sum:
  assumes "\<forall>q<length procs. surface_arrays_ok (fst (procs ! q)) (snd (snd (procs ! q)))"
  shows "\<forall>r<length procs.
           Total_Sens_Geo (SetSurface_Sensitivity have_mpi procs ! r)
           = (if have_mpi
              then (\<Sum>q<length procs.
                      rank_local_total (fst (procs ! q)) (fst (snd (procs ! q)))
                        (SetSurface_Sensitivity have_mpi procs ! q))
              else rank_local_total (fst (procs ! r)) (fst (snd (procs ! r)))
                     (SetSurface_Sensitivity have_mpi procs ! r))"
proof (intro allI impI)
  fix r
  assume r: "r < length procs"
  have loc: "rank_local_total (fst (procs ! q)) (fst (snd (procs ! q)))
               (SetSurface_Sensitivity have_mpi procs ! q)
             = snd (SetSurface_Sensitivity_local (fst (procs ! q)) (fst (snd (procs ! q)))
                      (snd (snd (procs ! q))))"
    if q: "q < length procs" for q
  proof -
    have p: "procs ! q = (fst (procs ! q), fst (snd (procs ! q)), snd (snd (procs ! q)))"
      by simp
    from assms q have wf: "surface_arrays_ok (fst (procs ! q)) (snd (snd (procs ! q)))"
      by blast
    show ?thesis
      by (simp only: SetSurface_Sensitivity_nth [OF q p] rank_local_total_local [OF wf])
  qed
  have p: "procs ! r = (fst (procs ! r), fst (snd (procs ! r)), snd (snd (procs ! r)))"
    by simp
  have sum_eq: "(\<Sum>q<length procs.
                      rank_local_total (fst (procs ! q)) (fst (snd (procs ! q)))
                        (SetSurface_Sensitivity have_mpi procs ! q))
        = (\<Sum>q<length procs.
             snd (SetSurface_Sensitivity_local (fst (procs ! q)) (fst (snd (procs ! q)))
                      (snd (snd (procs ! q)))))"
    by (rule sum.cong [OF refl]) (simp add: loc)
  have "Total_Sens_Geo (SetSurface_Sensitivity have_mpi procs ! r)
        = (if have_mpi
           then (\<Sum>q<length procs.
                   snd (SetSurface_Sensitivity_local (fst (procs ! q)) (fst (snd (procs ! q)))
                      (snd (snd (procs ! q)))))
           else snd (SetSurface_Sensitivity_local (fst (procs ! r)) (fst (snd (procs ! r)))
                      (snd (snd (procs ! r)))))"
    by (subst SetSurface_Sensitivity_nth [OF r p]) simp
  then show "Total_Sens_Geo (SetSurface_Sensitivity have_mpi procs ! r)
           = (if have_mpi
              then (\<Sum>q<length procs.
                      rank_local_total (fst (procs ! q)) (fst (snd (procs ! q)))
                        (SetSurface_Sensitivity have_mpi procs ! q))
              else rank_local_total (fst (procs ! r)) (fst (snd (procs ! r)))
                     (SetSurface_Sensitivity have_mpi procs ! r))"
    by (simp only: sum_eq loc [OF r])
qed


lemma sqrt_25: "sqrt 25 = 5"
  using real_sqrt_abs [of 5] by simp

lemma ex_vertex_Sens:
  "vertex_Sens ex_geometry ex_solver 0 0 = 3" "vertex_Sens ex_geometry ex_solver 0 1 = 4"
  using ex_projection_0 ex_projection_1
  by (simp_all add: vertex_Sens_projection normal_projection_def)

lemma ex_local_total: "snd (SetSurface_Sensitivity_local ex_geometry ex_config ex_solver) = 5"
proof -
  have n: "nMarker ex_solver = Suc (Suc 0)" "nVertex ex_geometry 0 = Suc (Suc 0)"
    by (simp_all add: ex_solver_def ex_geometry_def nVertex_def)
  have d: "Domain (geo_node ex_geometry ! Node (vertex ex_geometry ! 0 ! 0))"
    "Domain (geo_node ex_geometry ! Node (vertex ex_geometry ! 0 ! Suc 0))"
    by (simp_all add: ex_geometry_def)
  have w: "wall_marker ex_config 0" "\<not> wall_marker ex_config (Suc 0)"
    using ex_marker_facts(1,2) by simp_all
  show ?thesis
    using ex_vertex_Sens
    by (simp add: local_total [OF surface_arrays_okD [OF ex_arrays_ok]] n d w sqrt_25)
qed

theorem Total_Sens_Geo_collective_sum_witness:
  "surface_arrays_ok ex_geometry ex_solver
   \<and> rank_local_total ex_geometry ex_config
        (SetSurface_Sensitivity True
           [(ex_geometry, ex_config, ex_solver), (ex_geometry, ex_config, ex_solver)] ! 0) = 5
   \<and> rank_local_total ex_geometry ex_config
        (SetSurface_Sensitivity True
           [(ex_geometry, ex_config, ex_solver), (ex_geometry, ex_config, ex_solver)] ! 1) = 5
   \<and> Total_Sens_Geo (SetSurface_Sensitivity True
        [(ex_geometry, ex_config, ex_solver), (ex_geometry, ex_config, ex_solver)] ! 0) = 10
   \<and> Total_Sens_Geo (SetSurface_Sensitivity True
        [(ex_geometry, ex_config, ex_solver), (ex_geometry, ex_config, ex_solver)] ! 1) = 10
   \<and> Total_Sens_Geo (SetSurface_Sensitivity False [(ex_geometry, ex_config, ex_solver)] ! 0) = 5"
proof -
  let ?P = "[(ex_geometry, ex_config, ex_solver), (ex_geometry, ex_config, ex_solver)]"
  have h: "\<forall>q<length ?P. surface_arrays_ok (fst (?P ! q)) (snd (snd (?P ! q)))"
    using ex_arrays_ok by (simp add: less_Suc_eq)
  have h1: "\<forall>q<length [(ex_geometry, ex_config, ex_solver)].
              surface_arrays_ok (fst ([(ex_geometry, ex_config, ex_solver)] ! q))
                (snd (snd ([(ex_geometry, ex_config, ex_solver)] ! q)))"
    using ex_arrays_ok by simp
  have q: "(0::nat) < length ?P" "(1::nat) < length ?P" "?P ! 0 = (ex_geometry, ex_config, ex_solver)"
    "?P ! 1 = (ex_geometry, ex_config, ex_solver)"
    by simp_all
  have l0: "rank_local_total ex_geometry ex_config (SetSurface_Sensitivity True ?P ! 0) = 5"
    by (simp only: SetSurface_Sensitivity_nth [OF q(1) q(3)]
        rank_local_total_local [OF ex_arrays_ok] ex_local_total)
  have l1: "rank_local_total ex_geometry ex_config (SetSurface_Sensitivity True ?P ! 1) = 5"
    by (simp only: SetSurface_Sensitivity_nth [OF q(2) q(4)]
        rank_local_total_local [OF ex_arrays_ok] ex_local_total)
  have s: "(\<Sum>q<length ?P. rank_local_total (fst (?P ! q)) (fst (snd (?P ! q)))
              (SetSurface_Sensitivity True ?P ! q)) = 10"
    using l0 l1 by (simp add: numeral_2_eq_2)
  from Total_Sens_Geo_collective_sum [OF h, of True] q(1,2) s
  have t: "Total_Sens_Geo (SetSurface_Sensitivity True ?P ! 0) = 10"
    "Total_Sens_Geo (SetSurface_Sensitivity True ?P ! 1) = 10"
    by simp_all
  have "rank_local_total ex_geometry ex_config
          (SetSurface_Sensitivity False [(ex_geometry, ex_config, ex_solver)] ! 0) = 5"
    by (simp add: SetSurface_Sensitivity_nth rank_local_total_local [OF ex_arrays_ok] ex_local_total)
  with Total_Sens_Geo_collective_sum [OF h1, of False]
  have u: "Total_Sens_Geo (SetSurface_Sensitivity False [(ex_geometry, ex_config, ex_solver)] ! 0) = 5"
    by simp
  show ?thesis using ex_arrays_ok l0 l1 t u by blast
qed

subsection \<open>Loading the restart file\<close>

lemma fold_failure_append:
  "fold_failure f (xs @ ys) s
   = (case fold_failure f xs s of Inl e \<Rightarrow> Inl e | Inr s' \<Rightarrow> fold_failure f ys s')"
  by (induction xs arbitrary: s) (simp_all split: sum.splits)

text \<open>The extractions from a line whose index and leading columns extract.\<close>

lemma fold_upt_Suc: "fold g [0..<Suc n] s = g n (fold g [0..<n] s)"
  by simp

lemma skip_values:
  assumes "\<forall>p<n. \<exists>v. ts ! p = Extracted v" and "n \<le> length ts"
  shows "fst (fold (\<lambda>iVar (stream, dull_val). extract_value stream dull_val) [0..<n]
                ((True, ts), d0))
         = (True, drop n ts)"
  using assms
proof (induction n)
  case 0
  show ?case by simp
next
  case (Suc n)
  let ?f = "\<lambda>iVar (stream, dull_val). extract_value stream dull_val"
  obtain st d where f: "fold ?f [0..<n] ((True, ts), d0) = (st, d)"
    by (cases "fold ?f [0..<n] ((True, ts), d0)")
  from Suc have "fst (fold ?f [0..<n] ((True, ts), d0)) = (True, drop n ts)"
    by simp
  with f have st: "st = (True, drop n ts)" by simp
  from Suc.prems obtain v where v: "ts ! n = Extracted v" and n: "n < length ts"
    by auto
  have "drop n ts = Extracted v # drop (Suc n) ts"
    using n v by (metis Cons_nth_drop_Suc)
  then show ?case
    by (simp add: f st)
qed

lemma read_values:
  assumes "\<forall>p<n. \<exists>v. ts ! p = Extracted v" and "n \<le> length ts" and "n \<le> length buf"
  shows "\<exists>buf'. fold (\<lambda>iVar (stream, buf).
                      let (stream', x) = extract_value stream (buf ! iVar)
                      in (stream', buf[iVar := x])) [0..<n] ((True, ts), buf)
                = ((True, drop n ts), buf')
              \<and> length buf' = length buf
              \<and> (\<forall>i<n. ts ! i = Extracted (buf' ! i))"
  using assms
proof (induction n)
  case 0
  show ?case by simp
next
  case (Suc n)
  let ?f = "\<lambda>iVar (stream, buf).
              let (stream', x) = extract_value stream (buf ! iVar) in (stream', buf[iVar := x])"
  from Suc obtain b1 where
    f: "fold ?f [0..<n] ((True, ts), buf) = ((True, drop n ts), b1)"
    and l1: "length b1 = length buf"
    and e1: "\<forall>i<n. ts ! i = Extracted (b1 ! i)"
    by auto
  from Suc.prems obtain v where v: "ts ! n = Extracted v" and n: "n < length ts"
    and nb: "n < length buf"
    by auto
  have d: "drop n ts = Extracted v # drop (Suc n) ts"
    using n v by (metis Cons_nth_drop_Suc)
  have "fold ?f [0..<Suc n] ((True, ts), buf) = ((True, drop (Suc n) ts), b1[n := v])"
    by (simp only: fold_upt_Suc f) (simp add: d)
  moreover have "\<forall>i<Suc n. ts ! i = Extracted ((b1[n := v]) ! i)"
    using e1 v nb l1 by (auto simp: nth_list_update less_Suc_eq)
  ultimately show ?case using l1 by simp
qed

lemma length_read_values:
  "length (snd (fold (\<lambda>iVar (stream, buf).
                        (fst (extract_value stream (buf ! iVar)),
                         buf[iVar := snd (extract_value stream (buf ! iVar))])) [0..<n] st))
   = length (snd st)"
  by (induction n) (simp_all add: split_beta)

lemma length_read_Solution: "length (read_Solution skipVars nvar point_line buf) = length buf"
  by (simp add: read_Solution_def Let_def split_beta length_read_values)

lemma read_Solution_nth:
  assumes i: "iVar < nvar" and b: "nvar \<le> length buf"
    and ix: "index_extracts point_line"
    and len: "skipVars + nvar \<le> length (columns point_line)"
    and ex: "\<forall>p<skipVars + nvar. \<exists>v. columns point_line ! p = Extracted v"
  shows "columns point_line ! (skipVars + iVar)
         = Extracted (Solution (new_CDiscAdjVariable
                        (read_Solution skipVars nvar point_line buf) ndim nvar) ! iVar)"
proof -
  let ?ts = "columns point_line"
  let ?skip = "fold (\<lambda>iVar (stream, dull_val). extract_value stream dull_val) [0..<skipVars]
                 ((True, ?ts), 0)"
  have s1: "\<forall>p<skipVars. \<exists>v. ?ts ! p = Extracted v" and s2: "skipVars \<le> length ?ts"
    using ex len by simp_all
  have skip: "fst ?skip = (True, drop skipVars ?ts)"
    using skip_values [OF s1 s2] .
  have r1: "\<forall>p<nvar. \<exists>v. drop skipVars ?ts ! p = Extracted v"
    using ex len by simp
  have r2: "nvar \<le> length (drop skipVars ?ts)"
    using len by simp
  from read_values [OF r1 r2 b] obtain buf' where
    f: "fold (\<lambda>iVar (stream, buf).
                let (stream', x) = extract_value stream (buf ! iVar)
                in (stream', buf[iVar := x])) [0..<nvar] ((True, drop skipVars ?ts), buf)
        = ((True, drop nvar (drop skipVars ?ts)), buf')"
    and l: "length buf' = length buf"
    and e: "\<forall>i<nvar. drop skipVars ?ts ! i = Extracted (buf' ! i)"
    by blast
  have rs: "read_Solution skipVars nvar point_line buf = buf'"
    using ix skip f by (simp add: read_Solution_def Let_def split_beta)
  have "drop skipVars ?ts ! iVar = ?ts ! (skipVars + iVar)"
    using len i by simp
  with e i have "?ts ! (skipVars + iVar) = Extracted (buf' ! iVar)"
    by auto
  moreover have "Solution (new_CDiscAdjVariable buf' ndim nvar) ! iVar = buf' ! iVar"
    using i by (simp add: new_CDiscAdjVariable_def)
  ultimately show ?thesis by (simp add: rs)
qed

text \<open>
  The index column takes part through the success of its extraction only: a line with
  another index that extracts is read in the same way.
\<close>

lemma read_Solution_index:
  assumes "index_extracts point_line" and "i \<le> ULONG_MAX"
  shows "read_Solution skipVars nvar (point_line\<lparr>index_col := Some i\<rparr>) buf
         = read_Solution skipVars nvar point_line buf"
  using assms by (simp add: read_Solution_def index_extracts_def)

lemma read_restart_line_index:
  assumes "index_extracts point_line" and "i \<le> ULONG_MAX"
  shows "read_restart_line G skipVars ndim nvar (point_line\<lparr>index_col := Some i\<rparr>) st
         = read_restart_line G skipVars ndim nvar point_line st"
  by (cases st) (simp add: read_restart_line_def read_Solution_index [OF assms] Let_def)

lemma read_loop_index:
  assumes "\<forall>l\<in>set ls. index_extracts l \<and> f l \<le> ULONG_MAX"
  shows "fold_failure (read_restart_line G skipVars ndim nvar)
           (map (\<lambda>l. l\<lparr>index_col := Some (f l)\<rparr>) ls) st
         = fold_failure (read_restart_line G skipVars ndim nvar) ls st"
  using assms
  by (induction ls arbitrary: st) (simp_all add: read_restart_line_index split: sum.splits)

lemma load_restart_index:
  assumes "\<forall>l\<in>set (drop 1 file_lines). index_extracts l \<and> f l \<le> ULONG_MAX"
  shows "load_restart geometry Kind_Solver ndim nvar npoint npointdomain
           (map (\<lambda>l. l\<lparr>index_col := Some (f l)\<rparr>) file_lines) buf
         = load_restart geometry Kind_Solver ndim nvar npoint npointdomain file_lines buf"
proof -
  have a: "\<forall>l\<in>set (drop (Suc 0) file_lines). index_extracts l \<and> f l \<le> ULONG_MAX"
    using assms by simp
  show ?thesis
    by (simp add: load_restart_def drop_map read_loop_index [OF a] Let_def cong: sum.case_cong)
qed

lemma ctor_index:
  assumes "\<forall>l\<in>set (drop 1 file_lines). index_extracts l \<and> f l \<le> ULONG_MAX"
  shows "CDiscAdjSolver_ctor ctx geometry config direct_solver Kind_Solver iMesh filename
           (Some (map (\<lambda>l. l\<lparr>index_col := Some (f l)\<rparr>) file_lines)) raw
         = CDiscAdjSolver_ctor ctx geometry config direct_solver Kind_Solver iMesh filename
             (Some file_lines) raw"
  unfolding CDiscAdjSolver_ctor_def option.case load_restart_index [OF assms] by (rule refl)

text \<open>The table \<^verbatim>\<open>Global2Local\<close>, for a partition whose points have distinct global indices.\<close>

lemma build_Global2Local_steps:
  assumes "fold_failure (fill_Global2Local geometry) [0..<n] G0 = Inr G"
    and "\<forall>i<n. \<forall>i'<n. GlobalIndex (geo_node geometry ! i) = GlobalIndex (geo_node geometry ! i')
            \<longrightarrow> i = i'"
  shows "length G = length G0
         \<and> (\<forall>g<length G0. \<forall>i<n. GlobalIndex (geo_node geometry ! i) = g \<longrightarrow> G ! g = int i)
         \<and> (\<forall>g<length G0. (\<forall>i<n. GlobalIndex (geo_node geometry ! i) \<noteq> g) \<longrightarrow> G ! g = G0 ! g)
         \<and> (\<forall>i<n. GlobalIndex (geo_node geometry ! i) < length G0)"
  using assms
proof (induction n arbitrary: G)
  case 0
  then show ?case by simp
next
  case (Suc n)
  from Suc.prems(1) obtain G1 where
    f: "fold_failure (fill_Global2Local geometry) [0..<n] G0 = Inr G1"
    and s: "fill_Global2Local geometry n G1 = Inr G"
    by (auto simp: fold_failure_append split: sum.splits)
  have d: "\<forall>i<n. \<forall>i'<n. GlobalIndex (geo_node geometry ! i) = GlobalIndex (geo_node geometry ! i')
            \<longrightarrow> i = i'"
    using Suc.prems(2) by simp
  note IH = Suc.IH [OF f d]
  from s have b: "GlobalIndex (geo_node geometry ! n) < length G1"
    and G: "G = G1[GlobalIndex (geo_node geometry ! n) := int n]"
    by (auto simp: fill_Global2Local_def split: if_splits)
  have fresh: "\<forall>i<n. GlobalIndex (geo_node geometry ! i) \<noteq> GlobalIndex (geo_node geometry ! n)"
    using Suc.prems(2) by (metis less_Suc_eq nat_neq_iff)
  show ?case
    using IH b fresh by (auto simp: G nth_list_update less_Suc_eq)
qed

lemma read_restart_line_Inr:
  assumes "read_restart_line G sk ndim nvar l (g0, buf0, nd0) = Inr (g', b', nd')"
  shows "g' = g0 + 1 \<and> g0 < length G \<and> length b' = length buf0
         \<and> (if G ! g0 \<ge> 0
             then nat (G ! g0) < length nd0
                  \<and> nd' = nd0[nat (G ! g0) :=
                             Some (new_CDiscAdjVariable (read_Solution sk nvar l buf0) ndim nvar)]
             else nd' = nd0)"
  using assms by (auto simp: read_restart_line_def Let_def length_read_Solution split: if_splits)

lemma read_loop:
  assumes "fold_failure (read_restart_line G sk ndim nvar) ls (g0, buf0, nd0) = Inr (g1, buf1, nd1)"
  shows "length nd1 = length nd0
     \<and> (\<forall>j<length nd0. (\<forall>k<length ls. G ! (g0 + k) \<noteq> int j) \<longrightarrow> nd1 ! j = nd0 ! j)
     \<and> (\<forall>k<length ls. \<forall>j. G ! (g0 + k) = int j
            \<longrightarrow> (\<forall>k'<length ls. k' \<noteq> k \<longrightarrow> G ! (g0 + k') \<noteq> int j)
            \<longrightarrow> (\<exists>b. length b = length buf0
                   \<and> nd1 ! j = Some (new_CDiscAdjVariable (read_Solution sk nvar (ls ! k) b) ndim nvar)))
     \<and> (\<forall>k<length ls. g0 + k < length G
            \<and> (G ! (g0 + k) \<ge> 0 \<longrightarrow> nat (G ! (g0 + k)) < length nd0))"
  using assms
proof (induction ls arbitrary: g0 buf0 nd0)
  case Nil
  then show ?case by simp
next
  case (Cons l ls)
  from Cons.prems obtain g' b' nd' where
    st: "read_restart_line G sk ndim nvar l (g0, buf0, nd0) = Inr (g', b', nd')"
    and rest: "fold_failure (read_restart_line G sk ndim nvar) ls (g', b', nd') = Inr (g1, buf1, nd1)"
    by (auto split: sum.splits)
  from read_restart_line_Inr [OF st] have g': "g' = g0 + 1"
    and g0: "g0 < length G"
    and lb: "length b' = length buf0"
    and upd: "if G ! g0 \<ge> 0
              then nat (G ! g0) < length nd0
                   \<and> nd' = nd0[nat (G ! g0) :=
                              Some (new_CDiscAdjVariable (read_Solution sk nvar l buf0) ndim nvar)]
              else nd' = nd0"
    by simp_all
  have len': "length nd' = length nd0"
    using upd by (auto split: if_splits)
  from Cons.IH [OF rest] have len: "length nd1 = length nd'"
    and frame: "\<And>j. j < length nd' \<Longrightarrow> (\<forall>k<length ls. G ! (g' + k) \<noteq> int j) \<Longrightarrow> nd1 ! j = nd' ! j"
    and hit: "\<And>k j. k < length ls \<Longrightarrow> G ! (g' + k) = int j
                \<Longrightarrow> (\<forall>k'<length ls. k' \<noteq> k \<longrightarrow> G ! (g' + k') \<noteq> int j)
                \<Longrightarrow> \<exists>b. length b = length b'
                      \<and> nd1 ! j = Some (new_CDiscAdjVariable (read_Solution sk nvar (ls ! k) b) ndim nvar)"
    and bnd: "\<And>k. k < length ls \<Longrightarrow> g' + k < length G
                \<and> (G ! (g' + k) \<ge> 0 \<longrightarrow> nat (G ! (g' + k)) < length nd')"
    by blast+
  have A: "nd1 ! j = nd0 ! j"
    if j: "j < length nd0" and no: "\<forall>k<length (l # ls). G ! (g0 + k) \<noteq> int j" for j
  proof -
    from no have n0: "G ! g0 \<noteq> int j" by force
    from no have "\<forall>k<length ls. G ! (g' + k) \<noteq> int j"
      unfolding g' by (metis Suc_less_eq add_Suc_shift length_Cons plus_1_eq_Suc add.commute add.assoc)
    then have "nd1 ! j = nd' ! j" using frame j len' by simp
    also have "nd' ! j = nd0 ! j"
      using upd n0 by (auto split: if_splits simp: nth_list_update)
    finally show ?thesis .
  qed
  have B: "\<exists>b. length b = length buf0
              \<and> nd1 ! j = Some (new_CDiscAdjVariable (read_Solution sk nvar ((l # ls) ! k) b) ndim nvar)"
    if k: "k < length (l # ls)" and e: "G ! (g0 + k) = int j"
      and u: "\<forall>k'<length (l # ls). k' \<noteq> k \<longrightarrow> G ! (g0 + k') \<noteq> int j" for k j
  proof (cases k)
    case 0
    with e have e0: "G ! g0 = int j" by simp
    with upd have jl: "j < length nd0"
      and nd': "nd' = nd0[j := Some (new_CDiscAdjVariable (read_Solution sk nvar l buf0) ndim nvar)]"
      by simp_all
    have "\<forall>k'<length ls. G ! (g' + k') \<noteq> int j"
    proof (intro allI impI)
      fix k' assume "k' < length ls"
      then have "Suc k' < length (l # ls)" "Suc k' \<noteq> k" using 0 by simp_all
      with u have "G ! (g0 + Suc k') \<noteq> int j" by blast
      then show "G ! (g' + k') \<noteq> int j" by (simp add: g')
    qed
    then have "nd1 ! j = nd' ! j" using frame jl len' by simp
    also have "\<dots> = Some (new_CDiscAdjVariable (read_Solution sk nvar l buf0) ndim nvar)"
      using jl by (simp add: nd')
    finally show ?thesis using 0 by auto
  next
    case (Suc k0)
    with k have k0: "k0 < length ls" by simp
    from e Suc have e0: "G ! (g' + k0) = int j" by (simp add: g')
    have "\<forall>k'<length ls. k' \<noteq> k0 \<longrightarrow> G ! (g' + k') \<noteq> int j"
    proof (intro allI impI)
      fix k' assume "k' < length ls" "k' \<noteq> k0"
      then have "Suc k' < length (l # ls)" "Suc k' \<noteq> k" using Suc by simp_all
      with u have "G ! (g0 + Suc k') \<noteq> int j" by blast
      then show "G ! (g' + k') \<noteq> int j" by (simp add: g')
    qed
    from hit [OF k0 e0 this] show ?thesis using Suc lb by simp
  qed
  have C: "g0 + k < length G \<and> (G ! (g0 + k) \<ge> 0 \<longrightarrow> nat (G ! (g0 + k)) < length nd0)"
    if k: "k < length (l # ls)" for k
  proof (cases k)
    case 0
    then show ?thesis using g0 upd by (auto split: if_splits)
  next
    case (Suc k0)
    with k have "k0 < length ls" by simp
    from bnd [OF this] show ?thesis using Suc len' by (simp add: g')
  qed
  show ?case using len len' A B C by simp
qed


lemma halo_loop_keeps:
  "j < a \<Longrightarrow> fold (\<lambda>iPoint nd. nd[iPoint := x]) [a..<b] nd ! j = nd ! j"
  by (induction b) (simp_all add: nth_list_update)

lemma store_direct_loop:
  assumes "fold_failure (store_direct nvar ds) [0..<n] nd = Inr nd'"
  shows "length nd' = length nd
         \<and> (\<forall>j<length nd. \<forall>v. nd ! j = Some v
               \<longrightarrow> (\<exists>v'. nd' ! j = Some v' \<and> Solution v' = Solution v))"
  using assms
proof (induction n arbitrary: nd')
  case 0
  then show ?case by simp
next
  case (Suc n)
  from Suc.prems obtain nd1 where
    f: "fold_failure (store_direct nvar ds) [0..<n] nd = Inr nd1"
    and s: "store_direct nvar ds n nd1 = Inr nd'"
    by (auto simp: fold_failure_append split: sum.splits)
  from s obtain v where n: "n < length nd1" and v: "nd1 ! n = Some v"
    and nd': "nd' = nd1[n := Some (v\<lparr>Solution_Direct :=
                 copy_n nvar (Solution_d (direct_node ds ! n)) (Solution_Direct v)\<rparr>)]"
    by (auto simp: store_direct_def split: if_splits option.splits)
  from Suc.IH [OF f] have len: "length nd1 = length nd"
    and keep: "\<And>j w. j < length nd \<Longrightarrow> nd ! j = Some w
                 \<Longrightarrow> \<exists>v'. nd1 ! j = Some v' \<and> Solution v' = Solution w"
    by blast+
  have "\<exists>v'. nd' ! j = Some v' \<and> Solution v' = Solution w"
    if j: "j < length nd" and w: "nd ! j = Some w" for j w
  proof -
    from keep [OF j w] obtain v1 where v1: "nd1 ! j = Some v1" "Solution v1 = Solution w"
      by blast
    show ?thesis
    proof (cases "j = n")
      case True
      with v v1 have "v1 = v" by simp
      with True n v1 show ?thesis by (simp add: nd')
    next
      case False
      with v1 show ?thesis by (simp add: nd')
    qed
  qed
  then show ?case by (simp add: nd' len)
qed

lemma load_restart_positional:
  assumes ld: "load_restart geometry Kind_Solver ndim nvar npoint npointdomain file_lines buf
                 = Inr (buf', nd)"
    and distinct: "\<forall>i<npointdomain. \<forall>i'<npointdomain.
                     GlobalIndex (geo_node geometry ! i) = GlobalIndex (geo_node geometry ! i')
                     \<longrightarrow> i = i'"
    and k: "Suc k < length file_lines"
    and j: "j < npointdomain" and gi: "GlobalIndex (geo_node geometry ! j) = k"
  shows "j < length nd
         \<and> (\<exists>b. length b = length buf
                \<and> nd ! j = Some (new_CDiscAdjVariable
                   (read_Solution (restart_skipVars Kind_Solver ndim) nvar (file_lines ! Suc k) b)
                   ndim nvar))"
proof -
  let ?sk = "restart_skipVars Kind_Solver ndim"
  let ?ls = "drop 1 file_lines"
  from ld obtain G where bg: "build_Global2Local geometry npointdomain = Inr G"
    by (auto simp: load_restart_def split: sum.splits)
  with ld obtain g1 nd1 where
    loop: "fold_failure (read_restart_line G ?sk ndim nvar) ?ls (0, buf, replicate npoint None)
             = Inr (g1, buf', nd1)"
    and nd: "nd = fold (\<lambda>iPoint nd. nd[iPoint := Some (new_CDiscAdjVariable buf' ndim nvar)])
                    [npointdomain..<npoint] nd1"
    by (auto simp: load_restart_def Let_def split: sum.splits)
  from build_Global2Local_steps [OF bg [unfolded build_Global2Local_def] distinct]
  have hitG: "\<And>g i. g < Global_nPointDomain geometry \<Longrightarrow> i < npointdomain
                \<Longrightarrow> GlobalIndex (geo_node geometry ! i) = g \<Longrightarrow> G ! g = int i"
    and missG: "\<And>g. g < Global_nPointDomain geometry
                \<Longrightarrow> (\<forall>i<npointdomain. GlobalIndex (geo_node geometry ! i) \<noteq> g) \<Longrightarrow> G ! g = - 1"
    and inG: "\<And>i. i < npointdomain \<Longrightarrow> GlobalIndex (geo_node geometry ! i) < Global_nPointDomain geometry"
    and lenG: "length G = Global_nPointDomain geometry"
    by simp_all
  have kN: "k < Global_nPointDomain geometry" using inG [OF j] gi by simp
  have Gk: "G ! k = int j" using hitG [OF kN j gi] .
  have kl: "k < length ?ls" using k by simp
  from read_loop [OF loop] have len1: "length nd1 = npoint"
    and hit: "\<And>k j. k < length ?ls \<Longrightarrow> G ! (0 + k) = int j
                \<Longrightarrow> (\<forall>k'<length ?ls. k' \<noteq> k \<longrightarrow> G ! (0 + k') \<noteq> int j)
                \<Longrightarrow> \<exists>b. length b = length buf
                      \<and> nd1 ! j = Some (new_CDiscAdjVariable (read_Solution ?sk nvar (?ls ! k) b) ndim nvar)"
    and bnd: "\<And>k. k < length ?ls \<Longrightarrow> 0 + k < length G
                \<and> (G ! (0 + k) \<ge> 0 \<longrightarrow> nat (G ! (0 + k)) < length (replicate npoint (None :: CDiscAdjVariable option)))"
    by simp_all
  from bnd [OF kl] Gk have jn: "j < npoint" by simp
  have uniq: "\<forall>k'<length ?ls. k' \<noteq> k \<longrightarrow> G ! (0 + k') \<noteq> int j"
  proof (intro allI impI)
    fix k' assume k': "k' < length ?ls" and ne: "k' \<noteq> k"
    from bnd [OF k'] have k'N: "k' < Global_nPointDomain geometry" by (simp add: lenG)
    show "G ! (0 + k') \<noteq> int j"
    proof (cases "\<exists>i<npointdomain. GlobalIndex (geo_node geometry ! i) = k'")
      case True
      then obtain i where i: "i < npointdomain" "GlobalIndex (geo_node geometry ! i) = k'"
        by blast
      then have "G ! k' = int i" using hitG [OF k'N] by blast
      moreover have "i \<noteq> j" using i gi ne by auto
      ultimately show ?thesis by simp
    next
      case False
      then have "G ! k' = - 1" using missG [OF k'N] by blast
      then show ?thesis by simp
    qed
  qed
  from hit [OF kl _ uniq] Gk obtain b where
    bl: "length b = length buf" and
    b: "nd1 ! j = Some (new_CDiscAdjVariable (read_Solution ?sk nvar (?ls ! k) b) ndim nvar)"
    by auto
  have "?ls ! k = file_lines ! Suc k" using k by simp
  with b have "nd1 ! j = Some (new_CDiscAdjVariable (read_Solution ?sk nvar (file_lines ! Suc k) b) ndim nvar)"
    by simp
  moreover have "nd ! j = nd1 ! j" unfolding nd using j by (rule halo_loop_keeps)
  moreover have "length nd = length nd1" unfolding nd by (induction npoint) simp_all
  ultimately show ?thesis using jn len1 bl by auto
qed

text \<open>
  Claim C10. When the constructor loads a restart file on the finest mesh and the
  points of the partition have distinct global indices, the data line number \<open>k\<close>
  (counted from 0 after the header) is assigned to the point whose global index is
  \<open>k\<close>: where that point is the local point \<open>j\<close>, the index of the line extracts (it is
  present and at most \<open>ULONG_MAX\<close>) and so do the skipped columns and the \<open>nVar\<close> columns
  after them, the solution of \<open>j\<close> holds these \<open>nVar\<close> values. The value of the index
  column takes no part: a file whose data lines all have an index that extracts and
  whose index column is replaced by any other values that extract is loaded with the
  same result, without any failure of its own.
\<close>

theorem restart_lines_positional:
  assumes ok: "CDiscAdjSolver_ctor ctx geometry config ds Kind_Solver MESH_0 filename
                 (Some file_lines) raw = Inr solver'"
    and restart: "Restart config"
    and distinct: "\<forall>i<geo_nPointDomain geometry. \<forall>i'<geo_nPointDomain geometry.
                     GlobalIndex (geo_node geometry ! i) = GlobalIndex (geo_node geometry ! i')
                     \<longrightarrow> i = i'"
    and k: "Suc k < length file_lines"
    and j: "j < geo_nPointDomain geometry" and gi: "GlobalIndex (geo_node geometry ! j) = k"
    and ix: "index_extracts (file_lines ! Suc k)"
    and cols: "restart_skipVars Kind_Solver (geo_nDim geometry) + direct_nVar ds
                 \<le> length (columns (file_lines ! Suc k))"
    and ex: "\<forall>p<restart_skipVars Kind_Solver (geo_nDim geometry) + direct_nVar ds.
               \<exists>v. columns (file_lines ! Suc k) ! p = Extracted v"
  shows "(\<forall>iVar<direct_nVar ds.
            columns (file_lines ! Suc k) ! (restart_skipVars Kind_Solver (geo_nDim geometry) + iVar)
            = Extracted (Solution (node solver' ! j) ! iVar))
         \<and> (\<forall>f. (\<forall>l\<in>set (drop 1 file_lines). index_extracts l \<and> f l \<le> ULONG_MAX)
               \<longrightarrow> CDiscAdjSolver_ctor ctx geometry config ds Kind_Solver MESH_0 filename
                     (Some (map (\<lambda>l. l\<lparr>index_col := Some (f l)\<rparr>) file_lines)) raw = Inr solver')"
proof -
  let ?nvar = "direct_nVar ds"
  let ?ndim = "geo_nDim geometry"
  let ?sk = "restart_skipVars Kind_Solver ?ndim"
  from ok restart obtain buf' nd nd' where
    ld: "load_restart geometry Kind_Solver ?ndim ?nvar (geo_nPoint geometry)
           (geo_nPointDomain geometry) file_lines (replicate ?nvar (1 / 10 ^ 16)) = Inr (buf', nd)"
    and sd: "fold_failure (store_direct ?nvar ds) [0..<geo_nPoint geometry] nd = Inr nd'"
    and nodes: "node solver' = map the nd'"
    by (auto simp: CDiscAdjSolver_ctor_def Let_def split: sum.splits)
  from load_restart_positional [OF ld distinct k j gi] obtain b where
    jn: "j < length nd"
    and bl: "length b = length (replicate ?nvar (1 / 10 ^ 16 :: su2double))"
    and v: "nd ! j = Some (new_CDiscAdjVariable (read_Solution ?sk ?nvar (file_lines ! Suc k) b) ?ndim ?nvar)"
    by blast
  from bl have bn: "?nvar \<le> length b" by simp
  from store_direct_loop [OF sd] jn v obtain v' where
    len: "length nd' = length nd" and v': "nd' ! j = Some v'"
    and sol: "Solution v' = Solution (new_CDiscAdjVariable
                (read_Solution ?sk ?nvar (file_lines ! Suc k) b) ?ndim ?nvar)"
    by blast
  have "node solver' ! j = v'"
    using jn len v' by (simp add: nodes)
  then have "columns (file_lines ! Suc k) ! (?sk + iVar) = Extracted (Solution (node solver' ! j) ! iVar)"
    if "iVar < ?nvar" for iVar
    using read_Solution_nth [OF that bn ix cols ex] by (simp add: sol)
  moreover have "CDiscAdjSolver_ctor ctx geometry config ds Kind_Solver MESH_0 filename
                  (Some (map (\<lambda>l. l\<lparr>index_col := Some (f l)\<rparr>) file_lines)) raw = Inr solver'"
    if "\<forall>l\<in>set (drop 1 file_lines). index_extracts l \<and> f l \<le> ULONG_MAX" for f
    using ok by (simp only: ctor_index [OF that])
  ultimately show ?thesis by blast
qed

theorem restart_lines_positional_witness:
  "Restart ex_config
   \<and> index_col (ex_file ! 1) = Some 1
   \<and> columns (ex_file ! 1) = [Extracted 0, Extracted 0, Extracted 100, Extracted 200]
   \<and> GlobalIndex (geo_node ex_geometry ! 1) = 0
   \<and> Solution (node (projr (CDiscAdjSolver_ctor serial_context ex_geometry ex_config ex_direct
        RUNTIME_FLOW_SYS MESH_0 ''restart_adj.dat'' (Some ex_file) ex_solver)) ! 1) ! 0 = 100
   \<and> Solution (node (projr (CDiscAdjSolver_ctor serial_context ex_geometry ex_config ex_direct
        RUNTIME_FLOW_SYS MESH_0 ''restart_adj.dat'' (Some ex_file) ex_solver)) ! 1) ! 1 = 200
   \<and> CDiscAdjSolver_ctor serial_context ex_geometry ex_config ex_direct RUNTIME_FLOW_SYS MESH_0
        ''restart_adj.dat'' (Some (map (\<lambda>l. l\<lparr>index_col := Some 7\<rparr>) ex_file)) ex_solver
      = CDiscAdjSolver_ctor serial_context ex_geometry ex_config ex_direct RUNTIME_FLOW_SYS MESH_0
          ''restart_adj.dat'' (Some ex_file) ex_solver"
proof -
  let ?c = "CDiscAdjSolver_ctor serial_context ex_geometry ex_config ex_direct RUNTIME_FLOW_SYS MESH_0
              ''restart_adj.dat'' (Some ex_file) ex_solver"
  have restart: "Restart ex_config" by (simp add: ex_config_def)
  from ex_ctor_value [OF restart] obtain s where "?c = Inr s" by blast
  then have ok: "?c = Inr (projr ?c)" by simp
  have distinct: "\<forall>i<geo_nPointDomain ex_geometry. \<forall>i'<geo_nPointDomain ex_geometry.
                     GlobalIndex (geo_node ex_geometry ! i) = GlobalIndex (geo_node ex_geometry ! i')
                     \<longrightarrow> i = i'"
    by (simp add: ex_geometry_def less_Suc_eq numeral_2_eq_2)
  have k: "Suc 0 < length ex_file" by (simp add: ex_file_def)
  have j: "1 < geo_nPointDomain ex_geometry" by (simp add: ex_geometry_def)
  have gi: "GlobalIndex (geo_node ex_geometry ! 1) = 0" by (simp add: ex_geometry_def)
  have line: "index_col (ex_file ! 1) = Some 1"
    "columns (ex_file ! 1) = [Extracted 0, Extracted 0, Extracted 100, Extracted 200]"
    by (simp_all add: ex_file_def)
  have ix: "index_extracts (ex_file ! Suc 0)"
    by (simp add: index_extracts_def ULONG_MAX_def ex_file_def)
  have cols: "restart_skipVars RUNTIME_FLOW_SYS (geo_nDim ex_geometry) + direct_nVar ex_direct
                 \<le> length (columns (ex_file ! Suc 0))"
    by (simp add: restart_skipVars_def ex_geometry_def ex_direct_def ex_file_def)
  have ex: "\<forall>p<restart_skipVars RUNTIME_FLOW_SYS (geo_nDim ex_geometry) + direct_nVar ex_direct.
               \<exists>v. columns (ex_file ! Suc 0) ! p = Extracted v"
    by (simp add: restart_skipVars_def ex_geometry_def ex_direct_def ex_file_def
          less_Suc_eq numeral_eq_Suc)
  have n: "(0::nat) < direct_nVar ex_direct" "(1::nat) < direct_nVar ex_direct"
    "restart_skipVars RUNTIME_FLOW_SYS (geo_nDim ex_geometry) = 2"
    by (simp_all add: ex_direct_def restart_skipVars_def ex_geometry_def)
  have all: "\<forall>l\<in>set (drop 1 ex_file). index_extracts l \<and> (7::nat) \<le> ULONG_MAX"
    by (simp add: index_extracts_def ULONG_MAX_def ex_file_def)
  note t = restart_lines_positional [OF ok restart distinct k j gi ix cols ex]
  note v = t [THEN conjunct1, rule_format]
  have a: "Solution (node (projr ?c) ! 1) ! 0 = 100"
    using v [OF n(1), symmetric] line n(3) by simp
  have b: "Solution (node (projr ?c) ! 1) ! 1 = 200"
    using v [OF n(2), symmetric] line n(3) by simp
  from t all ok have c: "CDiscAdjSolver_ctor serial_context ex_geometry ex_config ex_direct RUNTIME_FLOW_SYS
        MESH_0 ''restart_adj.dat'' (Some (map (\<lambda>l. l\<lparr>index_col := Some 7\<rparr>) ex_file)) ex_solver = ?c"
    by simp
  show ?thesis using restart line gi a b c by blast
qed

end
